theory Spec2Isabelle
  imports Main
begin

section \<open>Go values used by server.go\<close>

text \<open>
  A Go \<^verbatim>\<open>error\<close> value. The errno values the code or the operating system model
  tells apart are constructors of their own; every other error is \<open>Err\<close> with its message.
  A nil error is \<open>None :: error option\<close>.
\<close>

datatype error = ENOENT | EACCES | EADDRINUSE | Err string

text \<open>
  \<^verbatim>\<open>pluginapi.Device\<close> has the string fields \<^verbatim>\<open>ID\<close> and \<^verbatim>\<open>Health\<close>;
  \<^verbatim>\<open>pluginapi.Healthy\<close> and \<^verbatim>\<open>pluginapi.Unhealthy\<close> are the string constants of the
  device plugin API.
\<close>

record Device =
  ID :: string
  Health :: string

definition Healthy :: string where
  "Healthy = ''Healthy''"

definition Unhealthy :: string where
  "Unhealthy = ''Unhealthy''"

text \<open>
  The plugin holds \<^verbatim>\<open>[]*pluginapi.Device\<close> and the health channel carries
  \<^verbatim>\<open>*pluginapi.Device\<close>, so devices are shared through pointers. The Go heap of
  Device objects is a list, a pointer is an index into it, \<^verbatim>\<open>&pluginapi.Device{...}\<close>
  appends a cell, and an index out of range stands for a nil pointer.
\<close>

type_synonym addr = nat

type_synonym heap = "Device list"

definition new_Device :: "Device \<Rightarrow> heap \<Rightarrow> addr \<times> heap" where
  "new_Device d hp = (length hp, hp @ [d])"

definition deref :: "heap \<Rightarrow> addr \<Rightarrow> Device option" where
  "deref hp a = (if a < length hp then Some (hp ! a) else None)"

text \<open>An unbuffered Go channel, as far as this file cares: it is open or closed.\<close>

datatype chan = Open | Closed

text \<open>
  What a call does: it returns a value, it panics, or (ListAndWatch only) it is still
  blocked in its \<^verbatim>\<open>select\<close> when the events run out.
\<close>

datatype 'a result = Return 'a | Panic string | Blocked

section \<open>Constants\<close>

definition RdmaSriovDpSocket :: string where
  "RdmaSriovDpSocket = ''rdma-sriov-dp.sock''"

definition RdmaSriovResourceName :: string where
  "RdmaSriovResourceName = ''rdma/vhca''"

definition RdmaDevices :: string where
  "RdmaDevices = ''/dev/infiniband''"

text \<open>Constants of the device plugin API package (v1beta1).\<close>

definition DevicePluginPath :: string where
  "DevicePluginPath = ''/var/lib/kubelet/device-plugins/''"

definition KubeletSocket :: string where
  "KubeletSocket = DevicePluginPath @ ''kubelet.sock''"

definition pluginapi_Version :: string where
  "pluginapi_Version = ''v1beta1''"

section \<open>The plugin\<close>

record UserConfig =
  PfNetdevices :: "string list"

text \<open>
  A \<^verbatim>\<open>*grpc.Server\<close>: the addresses of the listeners it serves. The field
  \<^verbatim>\<open>server\<close> of the plugin is \<open>None\<close> when the pointer is nil.
\<close>

datatype grpc_Server = Server "string list"

record RdmaSriovDevPlugin =
  resourceName :: string
  socket :: string
  devs :: "addr list"
  stop :: chan
  health :: chan
  server :: "grpc_Server option"

section \<open>The inventory builder\<close>

text \<open>
  The calls into \<^verbatim>\<open>github.com/Mellanox/sriovnet\<close> act on the host, so each takes and
  returns the state \<open>'w\<close> of the host. The library is a parameter of the model:
  \<open>'h\<close> is a \<^verbatim>\<open>*sriovnet.PfNetdevHandle\<close>, \<open>'vf\<close> a \<^verbatim>\<open>*sriovnet.VfObj\<close>, and
  \<open>PfHandle_List\<close> reads the field \<^verbatim>\<open>List\<close> through the handle. A call returning
  \<^verbatim>\<open>(handle, error)\<close> is a sum: the handle is there exactly when the error is nil.
\<close>

record ('w, 'h, 'vf) sriovnet =
  EnableSriov :: "string \<Rightarrow> 'w \<Rightarrow> error option \<times> 'w"
  GetPfNetdevHandle :: "string \<Rightarrow> 'w \<Rightarrow> (error + 'h) \<times> 'w"
  ConfigVfs :: "'h \<Rightarrow> bool \<Rightarrow> 'w \<Rightarrow> error option \<times> 'w"
  PfHandle_List :: "'h \<Rightarrow> 'w \<Rightarrow> 'vf list"
  GetVfNetdevName :: "'h \<Rightarrow> 'vf \<Rightarrow> 'w \<Rightarrow> string \<times> 'w"
  GetVfDefaultMacAddr :: "string \<Rightarrow> 'w \<Rightarrow> (string \<times> error option) \<times> 'w"

definition configSriov ::
  "('w, 'h, 'vf) sriovnet \<Rightarrow> string \<Rightarrow> 'w \<Rightarrow> (error + 'h) \<times> 'w" where
  "configSriov hw pfNetdevName w =
     (case EnableSriov hw pfNetdevName w of
        (Some err, w1) \<Rightarrow> (Inl err, w1)
      | (None, w1) \<Rightarrow>
          (case GetPfNetdevHandle hw pfNetdevName w1 of
             (Inl err, w2) \<Rightarrow> (Inl err, w2)
           | (Inr pfHandle, w2) \<Rightarrow>
               (case ConfigVfs hw pfHandle True w2 of
                  (Some err, w3) \<Rightarrow> (Inl err, w3)
                | (None, w3) \<Rightarrow> (Inr pfHandle, w3))))"

text \<open>
  The inner loop \<^verbatim>\<open>for _, vf := range pfHandle.List\<close>: the error of the MAC lookup is
  dropped (\<^verbatim>\<open>id, _ := ...\<close>), a fresh Device is allocated and its pointer appended.
\<close>

fun vf_loop ::
  "('w, 'h, 'vf) sriovnet \<Rightarrow> 'h \<Rightarrow> 'vf list \<Rightarrow> addr list \<Rightarrow> heap \<Rightarrow> 'w
     \<Rightarrow> addr list \<times> heap \<times> 'w" where
  "vf_loop hw pfHandle [] devs0 hp w = (devs0, hp, w)"
| "vf_loop hw pfHandle (vf # vfs) devs0 hp w =
     (case GetVfNetdevName hw pfHandle vf w of
        (vfNetdevName, w1) \<Rightarrow>
          (case GetVfDefaultMacAddr hw vfNetdevName w1 of
             ((id0, _), w2) \<Rightarrow>
               (case new_Device \<lparr>ID = id0, Health = Healthy\<rparr> hp of
                  (dpDevice, hp1) \<Rightarrow>
                    vf_loop hw pfHandle vfs (devs0 @ [dpDevice]) hp1 w2)))"

text \<open>
  The outer loop \<^verbatim>\<open>for _, ndev := range config.PfNetdevices\<close>: a device whose
  configuration fails is skipped (\<^verbatim>\<open>continue\<close>); the slice \<^verbatim>\<open>pfHandle.List\<close> is read
  once, when the inner loop starts.
\<close>

fun pf_loop ::
  "('w, 'h, 'vf) sriovnet \<Rightarrow> string list \<Rightarrow> addr list \<Rightarrow> heap \<Rightarrow> 'w
     \<Rightarrow> addr list \<times> heap \<times> 'w" where
  "pf_loop hw [] devs0 hp w = (devs0, hp, w)"
| "pf_loop hw (ndev # ndevs) devs0 hp w =
     (case configSriov hw ndev w of
        (Inl err2, w1) \<Rightarrow> pf_loop hw ndevs devs0 hp w1
      | (Inr pfHandle, w1) \<Rightarrow>
          (case vf_loop hw pfHandle (PfHandle_List hw pfHandle w1) devs0 hp w1 of
             (devs1, hp1, w2) \<Rightarrow> pf_loop hw ndevs devs1 hp1 w2))"

definition NewRdmaSriovDevPlugin ::
  "('w, 'h, 'vf) sriovnet \<Rightarrow> UserConfig \<Rightarrow> heap \<Rightarrow> 'w
     \<Rightarrow> RdmaSriovDevPlugin \<times> heap \<times> 'w" where
  "NewRdmaSriovDevPlugin hw config hp w =
     (case (if length (PfNetdevices config) = 0 then ([], hp, w)
            else pf_loop hw (PfNetdevices config) [] hp w) of
        (devs1, hp1, w1) \<Rightarrow>
          (\<lparr>resourceName = RdmaSriovResourceName,
            socket = DevicePluginPath @ RdmaSriovDpSocket,
            devs = devs1,
            stop = Open,
            health = Open,
            server = None\<rparr>, hp1, w1))"

section \<open>The host: socket files, listeners and the node agent\<close>

text \<open>
  The part of the operating system and of the network that Start, Stop, Register and
  cleanup touch. \<open>files\<close> are the paths that exist, \<open>listening\<close> the addresses with
  a listening socket, \<open>readonly\<close> the paths in a directory where the process may neither
  create nor remove an entry. The three fault fields say which calls the environment lets
  fail for another reason; \<open>registered\<close> are the requests the node agent has accepted.
  The host changes through the calls of the plugin only.
\<close>

record RegisterRequest =
  Version :: string
  Endpoint :: string
  ResourceName :: string

record host =
  files :: "string set"
  listening :: "string set"
  readonly :: "string set"
  listen_fault :: "string \<Rightarrow> error option"
  dial_fault :: "string \<Rightarrow> error option"
  register_fault :: "RegisterRequest \<Rightarrow> error option"
  registered :: "RegisterRequest list"

definition os_Remove :: "string \<Rightarrow> host \<Rightarrow> error option \<times> host" where
  "os_Remove name w =
     (if name \<notin> files w then (Some ENOENT, w)
      else if name \<in> readonly w then (Some EACCES, w)
      else (None, w\<lparr>files := files w - {name}\<rparr>))"

definition os_IsNotExist :: "error \<Rightarrow> bool" where
  "os_IsNotExist err = (err = ENOENT)"

text \<open>\<^verbatim>\<open>net.Listen("unix", address)\<close> binds the path, which creates the socket file.\<close>

definition net_Listen :: "string \<Rightarrow> host \<Rightarrow> (error + string) \<times> host" where
  "net_Listen address w =
     (if address \<in> files w then (Inl EADDRINUSE, w)
      else if address \<in> readonly w then (Inl EACCES, w)
      else (case listen_fault w address of
              Some err \<Rightarrow> (Inl err, w)
            | None \<Rightarrow>
                (Inr address,
                 w\<lparr>files := insert address (files w),
                   listening := insert address (listening w)\<rparr>)))"

definition grpc_NewServer :: grpc_Server where
  "grpc_NewServer = Server []"

fun grpc_Serve :: "grpc_Server \<Rightarrow> string \<Rightarrow> grpc_Server" where
  "grpc_Serve (Server ls) lis = Server (ls @ [lis])"

text \<open>
  \<^verbatim>\<open>(*grpc.Server).Stop\<close> closes the listeners of the server. Removing the socket file
  is left to cleanup, as server.go has it.
\<close>

fun grpc_Stop :: "grpc_Server \<Rightarrow> host \<Rightarrow> host" where
  "grpc_Stop (Server ls) w = w\<lparr>listening := listening w - set ls\<rparr>"

datatype ClientConn = Conn string

text \<open>
  A blocking dial (\<^verbatim>\<open>grpc.WithBlock\<close>) with a timeout: it fails when nothing listens at
  the path, or when the environment says so.
\<close>

definition dial :: "string \<Rightarrow> nat \<Rightarrow> host \<Rightarrow> error + ClientConn" where
  "dial unixSocketPath timeout w =
     (if unixSocketPath \<notin> listening w then Inl (Err ''context deadline exceeded'')
      else (case dial_fault w unixSocketPath of
              Some err \<Rightarrow> Inl err
            | None \<Rightarrow> Inr (Conn unixSocketPath)))"

text \<open>The Register call of the registration client, answered by the node agent.\<close>

definition client_Register ::
  "ClientConn \<Rightarrow> RegisterRequest \<Rightarrow> host \<Rightarrow> error option \<times> host" where
  "client_Register conn reqt w =
     (case register_fault w reqt of
        Some err \<Rightarrow> (Some err, w)
      | None \<Rightarrow> (None, w\<lparr>registered := registered w @ [reqt]\<rparr>))"

text \<open>
  \<^verbatim>\<open>path.Base\<close>: the last element of the path, after trailing slashes are removed;
  \<^verbatim>\<open>"."\<close> for the empty path and \<^verbatim>\<open>"/"\<close> for a path of slashes only.
\<close>

definition path_Base :: "string \<Rightarrow> string" where
  "path_Base p =
     (if p = [] then ''.''
      else (let stripped = rev (dropWhile (\<lambda>c. c = CHR ''/'') (rev p));
                last_elem = rev (takeWhile (\<lambda>c. c \<noteq> CHR ''/'') (rev stripped))
            in if last_elem = [] then ''/'' else last_elem))"

section \<open>Lifecycle: cleanup, Start, Stop, Register, Serve\<close>

definition cleanup :: "RdmaSriovDevPlugin \<Rightarrow> host \<Rightarrow> error option \<times> host" where
  "cleanup m w =
     (case os_Remove (socket m) w of
        (Some err, w1) \<Rightarrow> (if \<not> os_IsNotExist err then (Some err, w1) else (None, w1))
      | (None, w1) \<Rightarrow> (None, w1))"

text \<open>
  \<^verbatim>\<open>go m.server.Serve(sock)\<close> is taken as done when the statement has run: the server
  holds its listener from then on.
\<close>

definition Start ::
  "RdmaSriovDevPlugin \<Rightarrow> host \<Rightarrow> error option \<times> RdmaSriovDevPlugin \<times> host" where
  "Start m w =
     (case cleanup m w of
        (Some err, w1) \<Rightarrow> (Some err, m, w1)
      | (None, w1) \<Rightarrow>
          (case net_Listen (socket m) w1 of
             (Inl err, w2) \<Rightarrow> (Some err, m, w2)
           | (Inr sock, w2) \<Rightarrow>
               (let m1 = m\<lparr>server := Some (grpc_Serve grpc_NewServer sock)\<rparr>
                in case dial (socket m1) 5 w2 of
                     Inl err \<Rightarrow> (Some err, m1, w2)
                   | Inr conn \<Rightarrow> (None, m1, w2))))"

text \<open>
  \<^verbatim>\<open>close(m.stop)\<close> panics when the channel is closed already; the panic leaves the
  plugin as it is at that statement.
\<close>

definition Stop ::
  "RdmaSriovDevPlugin \<Rightarrow> host \<Rightarrow> error option result \<times> RdmaSriovDevPlugin \<times> host" where
  "Stop m w =
     (case server m of
        None \<Rightarrow> (Return None, m, w)
      | Some srv \<Rightarrow>
          (let w1 = grpc_Stop srv w;
               m1 = m\<lparr>server := None\<rparr>
           in if stop m1 = Closed then (Panic ''close of closed channel'', m1, w1)
              else (let m2 = m1\<lparr>stop := Closed\<rparr>
                    in case cleanup m2 w1 of (err, w2) \<Rightarrow> (Return err, m2, w2))))"

definition Register ::
  "RdmaSriovDevPlugin \<Rightarrow> string \<Rightarrow> string \<Rightarrow> host \<Rightarrow> error option \<times> host" where
  "Register m kubeletEndpoint resourceName0 w =
     (case dial kubeletEndpoint 5 w of
        Inl err \<Rightarrow> (Some err, w)
      | Inr conn \<Rightarrow>
          (let reqt = \<lparr>Version = pluginapi_Version,
                       Endpoint = path_Base (socket m),
                       ResourceName = resourceName0\<rparr>
           in case client_Register conn reqt w of
                (Some err, w1) \<Rightarrow> (Some err, w1)
              | (None, w1) \<Rightarrow> (None, w1)))"

text \<open>The error that Stop returns is dropped by Serve (\<^verbatim>\<open>m.Stop()\<close> as a statement).\<close>

definition Serve ::
  "RdmaSriovDevPlugin \<Rightarrow> host \<Rightarrow> error option result \<times> RdmaSriovDevPlugin \<times> host" where
  "Serve m w =
     (case Start m w of
        (Some err, m1, w1) \<Rightarrow> (Return (Some err), m1, w1)
      | (None, m1, w1) \<Rightarrow>
          (case Register m1 KubeletSocket (resourceName m1) w1 of
             (Some err, w2) \<Rightarrow>
               (case Stop m1 w2 of
                  (Return _, m2, w3) \<Rightarrow> (Return (Some err), m2, w3)
                | (Panic msg, m2, w3) \<Rightarrow> (Panic msg, m2, w3)
                | (Blocked, m2, w3) \<Rightarrow> (Blocked, m2, w3))
           | (None, w2) \<Rightarrow> (Return None, m1, w2)))"

section \<open>ListAndWatch\<close>

text \<open>
  A \<^verbatim>\<open>ListAndWatchResponse\<close> holds the slice \<^verbatim>\<open>m.devs\<close> of pointers; Send serialises
  it, so what goes on the stream is the devices as they are in the heap when Send runs
  (\<open>None\<close> for a nil pointer).
\<close>

record ListAndWatchResponse =
  Devices :: "Device option list"

text \<open>
  The server side of the stream: the messages passed to Send so far, each with what Send
  returned, and the answer the transport gives to the n-th Send.
\<close>

record ListAndWatchServer =
  sent :: "(ListAndWatchResponse \<times> error option) list"
  send_fault :: "nat \<Rightarrow> error option"

definition Send ::
  "ListAndWatchResponse \<Rightarrow> ListAndWatchServer \<Rightarrow> error option \<times> ListAndWatchServer" where
  "Send resp s =
     (let err = send_fault s (length (sent s))
      in (err, s\<lparr>sent := sent s @ [(resp, err)]\<rparr>))"

text \<open>
  One round of the \<^verbatim>\<open>select\<close>: the case the runtime took, with the pointer received
  from the health channel.
\<close>

datatype select_case = RecvStop | RecvHealth addr

text \<open>The store \<^verbatim>\<open>d.Health = v\<close> through a pointer that is not nil.\<close>

definition set_Health :: "heap \<Rightarrow> addr \<Rightarrow> string \<Rightarrow> heap" where
  "set_Health hp d v = hp[d := (hp ! d)\<lparr>Health := v\<rparr>]"

text \<open>
  The loop of ListAndWatch over the cases the runtime takes, in order. With no case left
  the call stays blocked in the select. \<^verbatim>\<open>d.Health = pluginapi.Unhealthy\<close> on a nil
  pointer panics. The value Send returns is not looked at.
\<close>

fun lw_loop ::
  "RdmaSriovDevPlugin \<Rightarrow> select_case list \<Rightarrow> heap \<Rightarrow> ListAndWatchServer
     \<Rightarrow> error option result \<times> heap \<times> ListAndWatchServer" where
  "lw_loop m [] hp s = (Blocked, hp, s)"
| "lw_loop m (RecvStop # evs) hp s = (Return None, hp, s)"
| "lw_loop m (RecvHealth d # evs) hp s =
     (if d < length hp
      then (let hp1 = set_Health hp d Unhealthy
            in case Send \<lparr>Devices = map (deref hp1) (devs m)\<rparr> s of
                 (_, s1) \<Rightarrow> lw_loop m evs hp1 s1)
      else (Panic ''nil pointer dereference'', hp, s))"

definition ListAndWatch ::
  "RdmaSriovDevPlugin \<Rightarrow> select_case list \<Rightarrow> heap \<Rightarrow> ListAndWatchServer
     \<Rightarrow> error option result \<times> heap \<times> ListAndWatchServer" where
  "ListAndWatch m evs hp s =
     (case Send \<lparr>Devices = map (deref hp) (devs m)\<rparr> s of
        (_, s1) \<Rightarrow> lw_loop m evs hp s1)"

text \<open>
  \<^verbatim>\<open>unhealthy\<close> sends on the unbuffered health channel: the caller joins the senders
  blocked on the channel until a select of ListAndWatch receives from it.
\<close>

definition unhealthy ::
  "RdmaSriovDevPlugin \<Rightarrow> addr \<Rightarrow> addr list \<Rightarrow> unit result \<times> addr list" where
  "unhealthy m dev senders =
     (if health m = Closed then (Panic ''send on closed channel'', senders)
      else (Blocked, senders @ [dev]))"

text \<open>
  The cases of the select in ListAndWatch that can proceed: the receive from the stop
  channel once it is closed, and a receive from the health channel for every blocked
  sender. The runtime takes any one of them.
\<close>

definition select_ready :: "RdmaSriovDevPlugin \<Rightarrow> addr list \<Rightarrow> select_case list" where
  "select_ready m senders =
     (if stop m = Closed then [RecvStop] else []) @ map RecvHealth senders"

section \<open>Allocate and the stateless calls\<close>

record DeviceSpec =
  ContainerPath :: string
  HostPath :: string
  Permissions :: string

text \<open>
  Of a \<^verbatim>\<open>ContainerAllocateResponse\<close> only the field \<^verbatim>\<open>Devices\<close> is set; it is named
  \<open>ContainerDevices\<close> here, \<open>Devices\<close> being the field of the ListAndWatch response.
\<close>

record ContainerAllocateResponse =
  ContainerDevices :: "DeviceSpec option list"

record ContainerAllocateRequest =
  DevicesIDs :: "string list"

record AllocateRequest =
  ContainerRequests :: "ContainerAllocateRequest option list"

record AllocateResponse =
  ContainerResponses :: "ContainerAllocateResponse option list"

text \<open>The generated getter is nil-safe: a nil request has no container requests.\<close>

definition GetContainerRequests ::
  "AllocateRequest option \<Rightarrow> ContainerAllocateRequest option list" where
  "GetContainerRequests r = (case r of None \<Rightarrow> [] | Some req \<Rightarrow> ContainerRequests req)"

text \<open>
  \<^verbatim>\<open>make\<close> gives slices of nil pointers; the loop stores at every index \<open>i\<close> of the
  range, which is an index of \<open>ress\<close>.
\<close>

definition Allocate ::
  "RdmaSriovDevPlugin \<Rightarrow> AllocateRequest option \<Rightarrow> AllocateResponse \<times> error option" where
  "Allocate m r =
     (let ress = replicate (length (GetContainerRequests r)) None;
          ress1 = foldl (\<lambda>ress0 i.
                    (let ds = replicate 1 None;
                         ds1 = ds[0 := Some \<lparr>ContainerPath = RdmaDevices,
                                               HostPath = RdmaDevices,
                                               Permissions = ''rwm''\<rparr>]
                     in ress0[i := Some \<lparr>ContainerDevices = ds1\<rparr>]))
                    ress [0..<length (GetContainerRequests r)]
      in (\<lparr>ContainerResponses = ress1\<rparr>, None))"

record DevicePluginOptions =
  PreStartRequired :: bool

definition GetDevicePluginOptions ::
  "RdmaSriovDevPlugin \<Rightarrow> DevicePluginOptions \<times> error option" where
  "GetDevicePluginOptions m = (\<lparr>PreStartRequired = False\<rparr>, None)"

definition PreStartContainer :: "RdmaSriovDevPlugin \<Rightarrow> unit \<times> error option" where
  "PreStartContainer m = ((), None)"

section \<open>The plugin as a system\<close>

text \<open>
  The plugin object, the heap of its devices and the host, and the calls that can be made
  on the plugin. Allocate, GetDevicePluginOptions and PreStartContainer read and write
  none of the three.
\<close>

record system =
  plugin :: RdmaSriovDevPlugin
  objects :: heap
  os :: host

datatype op =
    OpStart
  | OpStop
  | OpRegister string string
  | OpServe
  | OpListAndWatch "select_case list" ListAndWatchServer
  | OpAllocate "AllocateRequest option"
  | OpGetDevicePluginOptions
  | OpPreStartContainer

fun exec :: "op \<Rightarrow> system \<Rightarrow> system" where
  "exec OpStart st =
     (case Start (plugin st) (os st) of (_, m1, w1) \<Rightarrow> st\<lparr>plugin := m1, os := w1\<rparr>)"
| "exec OpStop st =
     (case Stop (plugin st) (os st) of (_, m1, w1) \<Rightarrow> st\<lparr>plugin := m1, os := w1\<rparr>)"
| "exec (OpRegister kubeletEndpoint resourceName0) st =
     (case Register (plugin st) kubeletEndpoint resourceName0 (os st) of
        (_, w1) \<Rightarrow> st\<lparr>os := w1\<rparr>)"
| "exec OpServe st =
     (case Serve (plugin st) (os st) of (_, m1, w1) \<Rightarrow> st\<lparr>plugin := m1, os := w1\<rparr>)"
| "exec (OpListAndWatch evs s) st =
     (case ListAndWatch (plugin st) evs (objects st) s of
        (_, hp1, _) \<Rightarrow> st\<lparr>objects := hp1\<rparr>)"
| "exec (OpAllocate r) st = (case Allocate (plugin st) r of (_, _) \<Rightarrow> st)"
| "exec OpGetDevicePluginOptions st =
     (case GetDevicePluginOptions (plugin st) of (_, _) \<Rightarrow> st)"
| "exec OpPreStartContainer st = (case PreStartContainer (plugin st) of (_, _) \<Rightarrow> st)"

definition run :: "op list \<Rightarrow> system \<Rightarrow> system" where
  "run ops st = foldl (\<lambda>st0 o0. exec o0 st0) st ops"

section \<open>Notions used to state the properties\<close>

text \<open>
  The heap after ListAndWatch has received the pointers \<open>ds\<close> from the health channel,
  in order.
\<close>

definition signalled :: "heap \<Rightarrow> addr list \<Rightarrow> heap" where
  "signalled hp ds = foldl (\<lambda>hp0 d. set_Health hp0 d Unhealthy) hp ds"

text \<open>
  The inventory as the specification describes it. \<open>vf_ids\<close> are the identifiers looked
  up for the virtual functions of one configured device, in order. \<open>pf_outcome\<close> is what
  one listed device contributes: \<open>None\<close> when its configuration failed, its identifiers
  otherwise. \<open>outcomes\<close> are the outcomes of the listed devices, in order, each on the
  host as the devices before it left it.
\<close>

fun vf_ids :: "('w, 'h, 'vf) sriovnet \<Rightarrow> 'h \<Rightarrow> 'vf list \<Rightarrow> 'w \<Rightarrow> string list \<times> 'w" where
  "vf_ids hw pfHandle [] w = ([], w)"
| "vf_ids hw pfHandle (vf # vfs) w =
     (case GetVfNetdevName hw pfHandle vf w of
        (vfNetdevName, w1) \<Rightarrow>
          (case GetVfDefaultMacAddr hw vfNetdevName w1 of
             ((id0, _), w2) \<Rightarrow>
               (case vf_ids hw pfHandle vfs w2 of (ids, w3) \<Rightarrow> (id0 # ids, w3))))"

definition pf_outcome ::
  "('w, 'h, 'vf) sriovnet \<Rightarrow> string \<Rightarrow> 'w \<Rightarrow> string list option \<times> 'w" where
  "pf_outcome hw ndev w =
     (case configSriov hw ndev w of
        (Inl err, w1) \<Rightarrow> (None, w1)
      | (Inr pfHandle, w1) \<Rightarrow>
          (case vf_ids hw pfHandle (PfHandle_List hw pfHandle w1) w1 of
             (ids, w2) \<Rightarrow> (Some ids, w2)))"

fun outcomes :: "('w, 'h, 'vf) sriovnet \<Rightarrow> string list \<Rightarrow> 'w \<Rightarrow> string list option list" where
  "outcomes hw [] w = []"
| "outcomes hw (ndev # ndevs) w =
     (case pf_outcome hw ndev w of (r, w1) \<Rightarrow> r # outcomes hw ndevs w1)"

definition contribution :: "string list option \<Rightarrow> string list" where
  "contribution r = (case r of None \<Rightarrow> [] | Some ids \<Rightarrow> ids)"

text \<open>
  How a system may differ from an earlier one: the same list of device pointers, the same
  number of objects, every object with the identifier it had, and with the health it had
  or else Unhealthy.
\<close>

definition evolves :: "system \<Rightarrow> system \<Rightarrow> bool" where
  "evolves st st' =
     (devs (plugin st') = devs (plugin st) \<and>
      length (objects st') = length (objects st) \<and>
      (\<forall>a < length (objects st).
         ID (objects st' ! a) = ID (objects st ! a) \<and>
         (Health (objects st' ! a) = Health (objects st ! a) \<or>
          Health (objects st' ! a) = Unhealthy)))"

text \<open>The inventory: the devices that the pointers of \<^verbatim>\<open>m.devs\<close> point to.\<close>

definition inventory :: "RdmaSriovDevPlugin \<Rightarrow> heap \<Rightarrow> Device option list" where
  "inventory m hp = map (deref hp) (devs m)"

section \<open>A fake provisioner\<close>

text \<open>
  A host to evaluate the builder on. Its state is the list of devices with SR-IOV enabled.
  Enabling fails for \<^verbatim>\<open>bad0\<close>, the handle for \<^verbatim>\<open>bad1\<close> and for a device that is not
  enabled, the provisioning of virtual functions for \<^verbatim>\<open>bad2\<close>. \<^verbatim>\<open>ens1f0\<close> has two virtual
  functions and every other device one; the MAC address of a virtual function is made of
  its name, so different virtual functions have different addresses.
\<close>

definition fake_sriovnet :: "(string list, string, string) sriovnet" where
  "fake_sriovnet =
     \<lparr>EnableSriov = (\<lambda>n w. if n = ''bad0'' then (Some (Err ''sriov not supported''), w)
                            else (None, w @ [n])),
      GetPfNetdevHandle = (\<lambda>n w. if n = ''bad1'' \<or> n \<notin> set w then (Inl (Err ''no such device''), w)
                                  else (Inr n, w)),
      ConfigVfs = (\<lambda>h b w. if h = ''bad2'' then (Some (Err ''vf setup failed''), w)
                            else (None, w)),
      PfHandle_List = (\<lambda>h w. if h = ''ens1f0'' then [''0'', ''1''] else [''0'']),
      GetVfNetdevName = (\<lambda>h vf w. (h @ ''v'' @ vf, w)),
      GetVfDefaultMacAddr = (\<lambda>n w. ((''mac:'' @ n, None), w))\<rparr>"

text \<open>
  A host on which no call fails for a reason of the environment, with the node agent
  listening on its socket; and a stream on which every Send succeeds.
\<close>

definition fake_host :: host where
  "fake_host =
     \<lparr>files = {KubeletSocket},
      listening = {KubeletSocket},
      readonly = {},
      listen_fault = (\<lambda>address. None),
      dial_fault = (\<lambda>address. None),
      register_fault = (\<lambda>reqt. None),
      registered = []\<rparr>"

definition fake_stream :: ListAndWatchServer where
  "fake_stream = \<lparr>sent = [], send_fault = (\<lambda>n. None)\<rparr>"

section \<open>Allocate\<close>

lemma foldl_store_all:
  "n \<le> length xs \<Longrightarrow> foldl (\<lambda>r i. r[i := v]) xs [0..<n] = replicate n v @ drop n xs"
proof (induction n)
  case 0
  then show ?case by simp
next
  case (Suc n)
  then have n: "n < length xs" by simp
  have "(replicate n v @ drop n xs)[n := v] = replicate n v @ (drop n xs)[0 := v]"
    by (simp add: list_update_append)
  also have "(drop n xs)[0 := v] = v # drop (Suc n) xs"
    using n by (simp add: Cons_nth_drop_Suc [symmetric])
  finally show ?case
    using Suc by (simp add: replicate_append_same)
qed

text \<open>
  C2. For a batch of k container requests (k = 0 and a nil request included), Allocate
  returns a nil error and a response with exactly k container responses, none of them nil,
  each with exactly one device spec whose host path and container path are
  \<^verbatim>\<open>/dev/infiniband\<close> and whose permissions are \<^verbatim>\<open>rwm\<close>. The right-hand side depends on
  the number of requests only: neither the requested device IDs nor the plugin matter.
\<close>

theorem Allocate_responses:
  "Allocate m r =
     (\<lparr>ContainerResponses =
         replicate (length (GetContainerRequests r))
           (Some \<lparr>ContainerDevices =
              [Some \<lparr>ContainerPath = ''/dev/infiniband'',
                     HostPath = ''/dev/infiniband'',
                     Permissions = ''rwm''\<rparr>]\<rparr>)\<rparr>, None)"
  by (simp add: Allocate_def Let_def foldl_store_all RdmaDevices_def)

section \<open>ListAndWatch: the emissions\<close>

lemma length_set_Health: "length (set_Health hp d v) = length hp"
  by (simp add: set_Health_def)

lemma signalled_Nil: "signalled hp [] = hp"
  by (simp add: signalled_def)

lemma signalled_Cons: "signalled hp (d # ds) = signalled (set_Health hp d Unhealthy) ds"
  by (simp add: signalled_def)

lemma length_signalled: "length (signalled hp ds) = length hp"
  by (induction ds arbitrary: hp) (simp_all add: signalled_Nil signalled_Cons length_set_Health)

lemma signalled_snoc:
  "signalled hp (ds @ [d]) = set_Health (signalled hp ds) d Unhealthy"
  by (simp add: signalled_def)

lemma lw_loop_health_run:
  "\<forall>d \<in> set ds. d < length hp \<Longrightarrow>
   lw_loop m (map RecvHealth ds @ rest) hp s =
     lw_loop m rest (signalled hp ds)
       (s\<lparr>sent := sent s @
            map (\<lambda>k. (\<lparr>Devices = map (deref (signalled hp (take (Suc k) ds))) (devs m)\<rparr>,
                       send_fault s (length (sent s) + k)))
              [0..<length ds]\<rparr>)"
proof (induction ds arbitrary: hp s)
  case Nil
  then show ?case by (simp add: signalled_Nil)
next
  case (Cons d ds)
  let ?hp1 = "set_Health hp d Unhealthy"
  let ?s1 = "s\<lparr>sent := sent s @
      [(\<lparr>Devices = map (deref ?hp1) (devs m)\<rparr>, send_fault s (length (sent s)))]\<rparr>"
  from Cons.prems have d: "d < length hp" and ds: "\<forall>d \<in> set ds. d < length ?hp1"
    by (simp_all add: length_set_Health)
  have step: "lw_loop m (map RecvHealth (d # ds) @ rest) hp s =
      lw_loop m (map RecvHealth ds @ rest) ?hp1 ?s1"
    using d by (simp add: Send_def Let_def)
  show ?case
    unfolding step Cons.IH [OF ds]
    by (simp add: signalled_Cons signalled_Nil map_upt_Suc del: upt_Suc)
qed

lemma ListAndWatch_health_signals:
  assumes "\<forall>d \<in> set ds. d < length hp"
  shows "ListAndWatch m (map RecvHealth ds @ rest) hp s =
     lw_loop m rest (signalled hp ds)
       (s\<lparr>sent := sent s @
            map (\<lambda>k. (\<lparr>Devices = map (deref (signalled hp (take k ds))) (devs m)\<rparr>,
                       send_fault s (length (sent s) + k)))
              [0..<Suc (length ds)]\<rparr>)"
  unfolding ListAndWatch_def Send_def Let_def prod.case
  by (subst lw_loop_health_run) (use assms in \<open>simp_all add: signalled_Nil map_upt_Suc del: upt_Suc\<close>)

lemma deref_set_Health:
  "d < length hp \<Longrightarrow>
   deref (set_Health hp d v) a =
     (if a = d then Some ((hp ! d)\<lparr>Health := v\<rparr>) else deref hp a)"
  by (simp add: deref_def set_Health_def)

lemma set_Health_idem:
  "d < length hp \<Longrightarrow> Health (hp ! d) = v \<Longrightarrow> set_Health hp d v = hp"
  by (simp add: set_Health_def list_update_same_conv)

lemma signalled_take_Suc:
  "k < length ds \<Longrightarrow>
   signalled hp (take (Suc k) ds) = set_Health (signalled hp (take k ds)) (ds ! k) Unhealthy"
  by (simp add: take_Suc_conv_app_nth signalled_snoc)

lemma lw_loop_messages:
  "\<exists>ms. \<forall>s. map fst (sent (snd (snd (lw_loop m evs hp s)))) = map fst (sent s) @ ms"
proof (induction evs arbitrary: hp)
  case Nil
  show ?case by simp
next
  case (Cons ev evs)
  show ?case
  proof (cases ev)
    case RecvStop
    then show ?thesis by simp
  next
    case (RecvHealth d)
    show ?thesis
    proof (cases "d < length hp")
      case True
      from Cons.IH [of "set_Health hp d Unhealthy"] obtain ms where
        ms: "\<And>s. map fst (sent (snd (snd (lw_loop m evs (set_Health hp d Unhealthy) s)))) =
               map fst (sent s) @ ms"
        by blast
      have "\<forall>s. map fst (sent (snd (snd (lw_loop m (ev # evs) hp s)))) =
               map fst (sent s) @
                 (\<lparr>Devices = map (deref (set_Health hp d Unhealthy)) (devs m)\<rparr> # ms)"
        using True RecvHealth by (simp add: Send_def Let_def ms)
      then show ?thesis by blast
    next
      case False
      with RecvHealth show ?thesis by simp
    qed
  qed
qed

lemma lw_loop_result_heap:
  "fst (lw_loop m evs hp s) = fst (lw_loop m evs hp s') \<and>
   fst (snd (lw_loop m evs hp s)) = fst (snd (lw_loop m evs hp s'))"
proof (induction evs arbitrary: hp s s')
  case Nil
  show ?case by simp
next
  case (Cons ev evs)
  show ?case
  proof (cases ev)
    case RecvStop
    then show ?thesis by simp
  next
    case (RecvHealth d)
    then show ?thesis
      using Cons.IH by (simp add: Send_def Let_def)
  qed
qed

lemma lw_loop_return:
  "fst (lw_loop m evs hp s) = Return e \<Longrightarrow> e = None \<and> RecvStop \<in> set evs"
proof (induction evs arbitrary: hp s)
  case Nil
  then show ?case by simp
next
  case (Cons ev evs)
  show ?case
  proof (cases ev)
    case RecvStop
    with Cons.prems show ?thesis by simp
  next
    case (RecvHealth d)
    with Cons.prems have "d < length hp"
      by (simp split: if_splits)
    with Cons.prems RecvHealth Cons.IH show ?thesis
      by (simp add: Send_def Let_def)
  qed
qed

lemma new_messages:
  assumes "map fst (sent t) = map fst (sent s) @ ms"
  shows "map fst (drop (length (sent s)) (sent t)) = ms"
proof -
  have "map fst (drop (length (sent s)) (sent t)) = drop (length (map fst (sent s))) (map fst (sent t))"
    by (simp add: drop_map)
  also have "\<dots> = ms"
    unfolding assms by simp
  finally show ?thesis .
qed

text \<open>
  C10. What Send returns is never looked at: on any two streams \<open>s\<close> and \<open>s'\<close>, however
  their sends fail, ListAndWatch ends the same way, leaves the same heap and passes the same
  messages to Send. The call returns only nil, and only when the select has taken the stop
  case; and when it takes the stop case after signals for Device objects, the call does
  return nil.
\<close>

theorem ListAndWatch_ignores_send_errors:
  "fst (ListAndWatch m evs hp s) = fst (ListAndWatch m evs hp s') \<and>
   fst (snd (ListAndWatch m evs hp s)) = fst (snd (ListAndWatch m evs hp s')) \<and>
   map fst (drop (length (sent s)) (sent (snd (snd (ListAndWatch m evs hp s))))) =
     map fst (drop (length (sent s')) (sent (snd (snd (ListAndWatch m evs hp s'))))) \<and>
   (\<forall>e. fst (ListAndWatch m evs hp s) = Return e \<longrightarrow> e = None \<and> RecvStop \<in> set evs) \<and>
   ((\<forall>d \<in> set ds. d < length hp) \<longrightarrow>
      fst (ListAndWatch m (map RecvHealth ds @ RecvStop # rest) hp s) = Return None)"
proof -
  let ?msg = "\<lparr>Devices = map (deref hp) (devs m)\<rparr>"
  let ?first = "\<lambda>s. s\<lparr>sent := sent s @ [(?msg, send_fault s (length (sent s)))]\<rparr>"
  have LW: "\<And>s. ListAndWatch m evs hp s = lw_loop m evs hp (?first s)"
    by (simp add: ListAndWatch_def Send_def Let_def)
  obtain ms where ms: "\<And>s. map fst (sent (snd (snd (lw_loop m evs hp s)))) = map fst (sent s) @ ms"
    using lw_loop_messages [of m evs hp] by blast
  have all: "\<And>s. map fst (sent (snd (snd (ListAndWatch m evs hp s)))) = map fst (sent s) @ (?msg # ms)"
    by (simp add: LW ms)
  have msgs: "\<And>s. map fst (drop (length (sent s)) (sent (snd (snd (ListAndWatch m evs hp s))))) = ?msg # ms"
    by (rule new_messages) (rule all)
  have ret: "\<forall>e. fst (ListAndWatch m evs hp s) = Return e \<longrightarrow> e = None \<and> RecvStop \<in> set evs"
    unfolding LW using lw_loop_return by blast
  have stop: "(\<forall>d \<in> set ds. d < length hp) \<longrightarrow>
      fst (ListAndWatch m (map RecvHealth ds @ RecvStop # rest) hp s) = Return None"
    by (simp add: ListAndWatch_health_signals)
  show ?thesis
    using lw_loop_result_heap [of m evs hp "?first s" "?first s'"] msgs ret stop
    unfolding LW by simp
qed

lemma lw_loop_appends: "\<exists>rest. sent (snd (snd (lw_loop m evs hp s))) = sent s @ rest"
proof (induction evs arbitrary: hp s)
  case Nil
  show ?case by simp
next
  case (Cons ev evs)
  show ?case
  proof (cases ev)
    case RecvStop
    then show ?thesis by simp
  next
    case (RecvHealth d)
    show ?thesis
    proof (cases "d < length hp")
      case True
      let ?s1 = "s\<lparr>sent := sent s @
        [(\<lparr>Devices = map (deref (set_Health hp d Unhealthy)) (devs m)\<rparr>, send_fault s (length (sent s)))]\<rparr>"
      from Cons.IH [of "set_Health hp d Unhealthy" ?s1] obtain rest where
        "sent (snd (snd (lw_loop m evs (set_Health hp d Unhealthy) ?s1))) = sent ?s1 @ rest"
        by blast
      with True RecvHealth show ?thesis
        by (simp add: Send_def Let_def)
    next
      case False
      with RecvHealth show ?thesis by simp
    qed
  qed
qed

text \<open>
  C7. Whatever the select takes afterwards, the first message a call of ListAndWatch
  passes to Send is the device list \<^verbatim>\<open>m.devs\<close> as the heap holds it when the call starts;
  and it is sent before any round of the select: with no round at all, the call is blocked
  with exactly that one message sent.
\<close>

theorem ListAndWatch_first_emission:
  "(\<exists>rest. sent (snd (snd (ListAndWatch m evs hp s))) =
      sent s @ (\<lparr>Devices = map (deref hp) (devs m)\<rparr>, send_fault s (length (sent s))) # rest) \<and>
   ListAndWatch m [] hp s =
     (Blocked, hp,
      s\<lparr>sent := sent s @ [(\<lparr>Devices = map (deref hp) (devs m)\<rparr>, send_fault s (length (sent s)))]\<rparr>)"
proof -
  let ?s1 = "s\<lparr>sent := sent s @ [(\<lparr>Devices = map (deref hp) (devs m)\<rparr>, send_fault s (length (sent s)))]\<rparr>"
  have LW: "\<And>evs. ListAndWatch m evs hp s = lw_loop m evs hp ?s1"
    by (simp add: ListAndWatch_def Send_def Let_def)
  obtain rest where "sent (snd (snd (lw_loop m evs hp ?s1))) = sent ?s1 @ rest"
    using lw_loop_appends by blast
  then show ?thesis
    by (simp add: LW)
qed

text \<open>
  C1. Let ListAndWatch receive the pointers \<open>ds\<close> from the health channel, each of them a
  Device object, before whatever the select takes next (\<open>rest\<close>). Then it has passed
  exactly \<open>1 + length ds\<close> messages to Send: message 0 is the device list as the call
  found it, and message \<open>k + 1\<close> is the full device list read in the heap after the first
  \<open>k + 1\<close> signals. That heap differs from the one before signal \<open>k\<close> at the signalled
  object only, whose health is Unhealthy and whose other fields are kept; every other
  object is as it was. When the signalled object is Unhealthy already the heap does not
  change, and the message is sent all the same.
\<close>

theorem ListAndWatch_signal_emissions:
  assumes "\<forall>d \<in> set ds. d < length hp"
  shows "ListAndWatch m (map RecvHealth ds @ rest) hp s =
     lw_loop m rest (signalled hp ds)
       (s\<lparr>sent := sent s @
            map (\<lambda>k. (\<lparr>Devices = map (deref (signalled hp (take k ds))) (devs m)\<rparr>,
                       send_fault s (length (sent s) + k)))
              [0..<Suc (length ds)]\<rparr>) \<and>
   (\<forall>k < length ds. \<forall>a.
      deref (signalled hp (take (Suc k) ds)) a =
        (if a = ds ! k then Some ((signalled hp (take k ds) ! a)\<lparr>Health := Unhealthy\<rparr>)
         else deref (signalled hp (take k ds)) a)) \<and>
   (\<forall>k < length ds.
      Health (signalled hp (take k ds) ! (ds ! k)) = Unhealthy \<longrightarrow>
      signalled hp (take (Suc k) ds) = signalled hp (take k ds))"
proof (intro conjI allI impI)
  show "ListAndWatch m (map RecvHealth ds @ rest) hp s =
     lw_loop m rest (signalled hp ds)
       (s\<lparr>sent := sent s @
            map (\<lambda>k. (\<lparr>Devices = map (deref (signalled hp (take k ds))) (devs m)\<rparr>,
                       send_fault s (length (sent s) + k)))
              [0..<Suc (length ds)]\<rparr>)"
    using assms by (rule ListAndWatch_health_signals)
next
  fix k a
  assume k: "k < length ds"
  with assms have "ds ! k < length (signalled hp (take k ds))"
    by (simp add: length_signalled)
  then show "deref (signalled hp (take (Suc k) ds)) a =
        (if a = ds ! k then Some ((signalled hp (take k ds) ! a)\<lparr>Health := Unhealthy\<rparr>)
         else deref (signalled hp (take k ds)) a)"
    using k by (simp add: signalled_take_Suc deref_set_Health)
next
  fix k
  assume k: "k < length ds"
    and u: "Health (signalled hp (take k ds) ! (ds ! k)) = Unhealthy"
  from k assms have "ds ! k < length (signalled hp (take k ds))"
    by (simp add: length_signalled)
  then show "signalled hp (take (Suc k) ds) = signalled hp (take k ds)"
    using k u by (simp add: signalled_take_Suc set_Health_idem)
qed

text \<open>
  Three devices, the second signalled twice, then the stop case: three messages, the second
  device Unhealthy in the last two, the others Healthy throughout. The second signal leaves
  the heap as the first left it, and the first leaves the third device as it was.
\<close>

theorem ListAndWatch_signal_emissions_witness:
  "ListAndWatch \<lparr>resourceName = ''rdma/vhca'', socket = ''/p/rdma-sriov-dp.sock'', devs = [0, 1, 2],
       stop = Open, health = Open, server = None\<rparr>
     [RecvHealth 1, RecvHealth 1, RecvStop]
     [\<lparr>ID = ''a'', Health = Healthy\<rparr>, \<lparr>ID = ''b'', Health = Healthy\<rparr>, \<lparr>ID = ''c'', Health = Healthy\<rparr>]
     \<lparr>sent = [], send_fault = \<lambda>n. None\<rparr> =
   (Return None,
    [\<lparr>ID = ''a'', Health = Healthy\<rparr>, \<lparr>ID = ''b'', Health = Unhealthy\<rparr>, \<lparr>ID = ''c'', Health = Healthy\<rparr>],
    \<lparr>sent =
       [(\<lparr>Devices = [Some \<lparr>ID = ''a'', Health = Healthy\<rparr>, Some \<lparr>ID = ''b'', Health = Healthy\<rparr>,
                       Some \<lparr>ID = ''c'', Health = Healthy\<rparr>]\<rparr>, None),
        (\<lparr>Devices = [Some \<lparr>ID = ''a'', Health = Healthy\<rparr>, Some \<lparr>ID = ''b'', Health = Unhealthy\<rparr>,
                       Some \<lparr>ID = ''c'', Health = Healthy\<rparr>]\<rparr>, None),
        (\<lparr>Devices = [Some \<lparr>ID = ''a'', Health = Healthy\<rparr>, Some \<lparr>ID = ''b'', Health = Unhealthy\<rparr>,
                       Some \<lparr>ID = ''c'', Health = Healthy\<rparr>]\<rparr>, None)],
     send_fault = \<lambda>n. None\<rparr>) \<and>
   signalled
     [\<lparr>ID = ''a'', Health = Healthy\<rparr>, \<lparr>ID = ''b'', Health = Healthy\<rparr>, \<lparr>ID = ''c'', Health = Healthy\<rparr>]
     [1, 1] =
   signalled
     [\<lparr>ID = ''a'', Health = Healthy\<rparr>, \<lparr>ID = ''b'', Health = Healthy\<rparr>, \<lparr>ID = ''c'', Health = Healthy\<rparr>]
     [1] \<and>
   deref (signalled
     [\<lparr>ID = ''a'', Health = Healthy\<rparr>, \<lparr>ID = ''b'', Health = Healthy\<rparr>, \<lparr>ID = ''c'', Health = Healthy\<rparr>]
     [1]) 2 = Some \<lparr>ID = ''c'', Health = Healthy\<rparr>"
proof -
  let ?hp = "[\<lparr>ID = ''a'', Health = Healthy\<rparr>, \<lparr>ID = ''b'', Health = Healthy\<rparr>,
     \<lparr>ID = ''c'', Health = Healthy\<rparr>]"
  let ?m = "\<lparr>resourceName = ''rdma/vhca'', socket = ''/p/rdma-sriov-dp.sock'', devs = [0, 1, 2],
       stop = Open, health = Open, server = None\<rparr>"
  let ?s = "\<lparr>sent = [], send_fault = \<lambda>n. None\<rparr>"
  have h: "\<forall>d \<in> set [1, 1]. d < length ?hp"
    by simp
  have up: "[0..<Suc (length [1::nat, 1])] = [0, 1, 2]"
    by (simp add: upt_rec)
  note inst = ListAndWatch_signal_emissions [OF h, of ?m "[RecvStop]" ?s]
  have run: "ListAndWatch ?m [RecvHealth 1, RecvHealth 1, RecvStop] ?hp ?s =
   (Return None,
    [\<lparr>ID = ''a'', Health = Healthy\<rparr>, \<lparr>ID = ''b'', Health = Unhealthy\<rparr>, \<lparr>ID = ''c'', Health = Healthy\<rparr>],
    \<lparr>sent =
       [(\<lparr>Devices = [Some \<lparr>ID = ''a'', Health = Healthy\<rparr>, Some \<lparr>ID = ''b'', Health = Healthy\<rparr>,
                       Some \<lparr>ID = ''c'', Health = Healthy\<rparr>]\<rparr>, None),
        (\<lparr>Devices = [Some \<lparr>ID = ''a'', Health = Healthy\<rparr>, Some \<lparr>ID = ''b'', Health = Unhealthy\<rparr>,
                       Some \<lparr>ID = ''c'', Health = Healthy\<rparr>]\<rparr>, None),
        (\<lparr>Devices = [Some \<lparr>ID = ''a'', Health = Healthy\<rparr>, Some \<lparr>ID = ''b'', Health = Unhealthy\<rparr>,
                       Some \<lparr>ID = ''c'', Health = Healthy\<rparr>]\<rparr>, None)],
     send_fault = \<lambda>n. None\<rparr>)"
    using inst [THEN conjunct1] unfolding up
    by (simp add: signalled_def set_Health_def deref_def)
  have second: "Health (signalled ?hp (take 1 [1, 1]) ! ([1, 1] ! 1)) = Unhealthy"
    by (simp add: signalled_def set_Health_def)
  have idem: "signalled ?hp (take (Suc 1) [1, 1]) = signalled ?hp (take 1 [1, 1])"
    using inst [THEN conjunct2, THEN conjunct2, rule_format, of 1] second by simp
  have frame: "deref (signalled ?hp (take (Suc 0) [1, 1])) 2 = deref (signalled ?hp (take 0 [1, 1])) 2"
    using inst [THEN conjunct2, THEN conjunct1, rule_format, of 0 2] by simp
  have other: "deref (signalled ?hp [1]) 2 = Some \<lparr>ID = ''c'', Health = Healthy\<rparr>"
    using frame by (simp add: signalled_def deref_def)
  show ?thesis
    using run idem other by simp
qed

text \<open>
  A stream on which every Send fails: the call still consumes the signal, leaves the heap
  it leaves on a stream that works, and returns nil when the stop case is taken.
\<close>

theorem ListAndWatch_ignores_send_errors_witness:
  "fst (ListAndWatch \<lparr>resourceName = ''rdma/vhca'', socket = ''/p/rdma-sriov-dp.sock'', devs = [0],
       stop = Open, health = Open, server = None\<rparr>
     [RecvHealth 0, RecvStop]
     [\<lparr>ID = ''a'', Health = Healthy\<rparr>]
     \<lparr>sent = [], send_fault = \<lambda>n. Some (Err ''transport is closing'')\<rparr>) = Return None \<and>
   fst (snd (ListAndWatch \<lparr>resourceName = ''rdma/vhca'', socket = ''/p/rdma-sriov-dp.sock'', devs = [0],
       stop = Open, health = Open, server = None\<rparr>
     [RecvHealth 0, RecvStop]
     [\<lparr>ID = ''a'', Health = Healthy\<rparr>]
     \<lparr>sent = [], send_fault = \<lambda>n. Some (Err ''transport is closing'')\<rparr>)) =
     [\<lparr>ID = ''a'', Health = Unhealthy\<rparr>] \<and>
   RecvStop \<in> set [RecvHealth 0, RecvStop]"
proof -
  let ?m = "\<lparr>resourceName = ''rdma/vhca'', socket = ''/p/rdma-sriov-dp.sock'', devs = [0],
       stop = Open, health = Open, server = None\<rparr>"
  let ?hp = "[\<lparr>ID = ''a'', Health = Healthy\<rparr>]"
  let ?bad = "\<lparr>sent = [], send_fault = \<lambda>n. Some (Err ''transport is closing'')\<rparr>"
  have h: "\<forall>d \<in> set [0]. d < length ?hp"
    by simp
  note inst = ListAndWatch_ignores_send_errors [of ?m "[RecvHealth 0, RecvStop]" ?hp ?bad fake_stream "[0]" "[]"]
  have ret: "fst (ListAndWatch ?m [RecvHealth 0, RecvStop] ?hp ?bad) = Return None"
    using inst [THEN conjunct2, THEN conjunct2, THEN conjunct2, THEN conjunct2, THEN mp, OF h]
    by simp
  have good: "fst (snd (ListAndWatch ?m [RecvHealth 0, RecvStop] ?hp fake_stream)) =
      [\<lparr>ID = ''a'', Health = Unhealthy\<rparr>]"
    by (simp add: ListAndWatch_def Send_def Let_def set_Health_def fake_stream_def)
  have heap: "fst (snd (ListAndWatch ?m [RecvHealth 0, RecvStop] ?hp ?bad)) =
      [\<lparr>ID = ''a'', Health = Unhealthy\<rparr>]"
    using inst [THEN conjunct2, THEN conjunct1] good by simp
  have "RecvStop \<in> set [RecvHealth 0, RecvStop]"
    using inst [THEN conjunct2, THEN conjunct2, THEN conjunct2, THEN conjunct1, THEN spec, THEN mp, OF ret]
    by (rule conjunct2)
  with ret heap show ?thesis
    by simp
qed

section \<open>The inventory builder: what it returns\<close>

lemma vf_ids_Cons:
  assumes "GetVfNetdevName hw h vf w = (n, w1)"
    and "GetVfDefaultMacAddr hw n w1 = ((i, e), w2)"
  shows "vf_ids hw h (vf # vfs) w = (i # fst (vf_ids hw h vfs w2), snd (vf_ids hw h vfs w2))"
  using assms by (simp split: prod.splits)

lemma length_vf_ids: "length (fst (vf_ids hw h vfs w)) = length vfs"
proof (induction vfs arbitrary: w)
  case Nil
  show ?case by simp
next
  case (Cons vf vfs)
  obtain n w1 where n: "GetVfNetdevName hw h vf w = (n, w1)"
    by (cases "GetVfNetdevName hw h vf w")
  obtain i e w2 where i: "GetVfDefaultMacAddr hw n w1 = ((i, e), w2)"
    by (cases "GetVfDefaultMacAddr hw n w1") auto
  show ?case
    by (simp only: vf_ids_Cons [OF n i] fst_conv list.size Cons.IH)
qed

lemma vf_loop_spec:
  "vf_loop hw h vfs acc hp w =
     (acc @ [length hp..<length hp + length vfs],
      hp @ map (\<lambda>i. \<lparr>ID = i, Health = Healthy\<rparr>) (fst (vf_ids hw h vfs w)),
      snd (vf_ids hw h vfs w))"
proof (induction vfs arbitrary: acc hp w)
  case Nil
  show ?case by simp
next
  case (Cons vf vfs)
  obtain n w1 where n: "GetVfNetdevName hw h vf w = (n, w1)"
    by (cases "GetVfNetdevName hw h vf w")
  obtain i e w2 where i: "GetVfDefaultMacAddr hw n w1 = ((i, e), w2)"
    by (cases "GetVfDefaultMacAddr hw n w1") auto
  have "vf_loop hw h (vf # vfs) acc hp w =
      vf_loop hw h vfs (acc @ [length hp]) (hp @ [\<lparr>ID = i, Health = Healthy\<rparr>]) w2"
    using n i by (simp add: new_Device_def)
  also have "\<dots> =
     ((acc @ [length hp]) @ [Suc (length hp)..<Suc (length hp) + length vfs],
      (hp @ [\<lparr>ID = i, Health = Healthy\<rparr>]) @
        map (\<lambda>i. \<lparr>ID = i, Health = Healthy\<rparr>) (fst (vf_ids hw h vfs w2)),
      snd (vf_ids hw h vfs w2))"
    by (simp add: Cons.IH)
  finally have run: "vf_loop hw h (vf # vfs) acc hp w =
     ((acc @ [length hp]) @ [Suc (length hp)..<Suc (length hp) + length vfs],
      (hp @ [\<lparr>ID = i, Health = Healthy\<rparr>]) @
        map (\<lambda>i. \<lparr>ID = i, Health = Healthy\<rparr>) (fst (vf_ids hw h vfs w2)),
      snd (vf_ids hw h vfs w2))" .
  have up: "[length hp..<length hp + length (vf # vfs)] =
      length hp # [Suc (length hp)..<Suc (length hp) + length vfs]"
    by (subst upt_rec) simp
  show ?case
    unfolding run up vf_ids_Cons [OF n i] by simp
qed

lemma pf_loop_spec:
  "fst (pf_loop hw ns acc hp w) =
     acc @ [length hp..<length hp + length (concat (map contribution (outcomes hw ns w)))] \<and>
   fst (snd (pf_loop hw ns acc hp w)) =
     hp @ map (\<lambda>i. \<lparr>ID = i, Health = Healthy\<rparr>) (concat (map contribution (outcomes hw ns w)))"
proof (induction ns arbitrary: acc hp w)
  case Nil
  show ?case by simp
next
  case (Cons n ns)
  obtain r w1 where c: "configSriov hw n w = (r, w1)"
    by (cases "configSriov hw n w")
  show ?case
  proof (cases r)
    case (Inl e)
    with c show ?thesis
      by (simp add: Cons.IH pf_outcome_def contribution_def)
  next
    case (Inr h)
    obtain ids w2 where v: "vf_ids hw h (PfHandle_List hw h w1) w1 = (ids, w2)"
      by (cases "vf_ids hw h (PfHandle_List hw h w1) w1")
    have len: "length (PfHandle_List hw h w1) = length ids"
      using length_vf_ids [of hw h "PfHandle_List hw h w1" w1] v by simp
    have up: "[length hp..<length hp + length ids] @
        [length hp + length ids..<length hp + length ids + k] =
        [length hp..<length hp + (length ids + k)]" for k
      by (metis add.assoc le_add1 upt_add_eq_append)
    show ?thesis
      using c Inr v
      by (simp add: vf_loop_spec Cons.IH pf_outcome_def contribution_def len up)
  qed
qed

lemma New_spec:
  "devs (fst (NewRdmaSriovDevPlugin hw config hp w)) =
     [length hp..<length hp + length (concat (map contribution (outcomes hw (PfNetdevices config) w)))] \<and>
   fst (snd (NewRdmaSriovDevPlugin hw config hp w)) =
     hp @ map (\<lambda>i. \<lparr>ID = i, Health = Healthy\<rparr>)
            (concat (map contribution (outcomes hw (PfNetdevices config) w)))"
proof (cases "PfNetdevices config = []")
  case True
  then show ?thesis
    by (simp add: NewRdmaSriovDevPlugin_def)
next
  case False
  then show ?thesis
    using pf_loop_spec [of hw "PfNetdevices config" "[]" hp w]
    by (auto simp add: NewRdmaSriovDevPlugin_def split: prod.splits)
qed

lemma deref_fresh:
  "map (deref (hp @ ds)) [length hp..<length hp + length ds] = map Some ds"
  by (rule nth_equalityI) (simp_all add: deref_def nth_append)

lemma New_inventory:
  "inventory (fst (NewRdmaSriovDevPlugin hw config hp w))
     (fst (snd (NewRdmaSriovDevPlugin hw config hp w))) =
   map (\<lambda>i. Some \<lparr>ID = i, Health = Healthy\<rparr>)
     (concat (map contribution (outcomes hw (PfNetdevices config) w)))"
proof -
  let ?ids = "concat (map contribution (outcomes hw (PfNetdevices config) w))"
  let ?ds = "map (\<lambda>i. \<lparr>ID = i, Health = Healthy\<rparr>) ?ids"
  have "map (deref (hp @ ?ds)) [length hp..<length hp + length ?ds] = map Some ?ds"
    by (rule deref_fresh)
  then show ?thesis
    using New_spec [of hw config hp w]
    by (simp add: inventory_def comp_def)
qed

lemma length_outcomes: "length (outcomes hw ns w) = length ns"
  by (induction ns arbitrary: w) (simp_all split: prod.splits)

lemma pf_outcome_cases:
  "(case configSriov hw ndev w of
      (Inl err, w1) \<Rightarrow> pf_outcome hw ndev w = (None, w1)
    | (Inr h, w1) \<Rightarrow>
        (\<exists>ids w2. pf_outcome hw ndev w = (Some ids, w2) \<and>
                   length ids = length (PfHandle_List hw h w1)))"
proof (cases "configSriov hw ndev w")
  case (Pair r w1)
  show ?thesis
  proof (cases r)
    case (Inl e)
    with Pair show ?thesis by (simp add: pf_outcome_def)
  next
    case (Inr h)
    with Pair show ?thesis
      using length_vf_ids [of hw h "PfHandle_List hw h w1" w1]
      by (auto simp add: pf_outcome_def split: prod.splits)
  qed
qed

lemma configSriov_failures:
  "(EnableSriov hw ndev w = (Some e, w1) \<longrightarrow> configSriov hw ndev w = (Inl e, w1)) \<and>
   (EnableSriov hw ndev w = (None, w1) \<and> GetPfNetdevHandle hw ndev w1 = (Inl e, w2) \<longrightarrow>
      configSriov hw ndev w = (Inl e, w2)) \<and>
   (EnableSriov hw ndev w = (None, w1) \<and> GetPfNetdevHandle hw ndev w1 = (Inr h, w2) \<and>
    ConfigVfs hw h True w2 = (Some e, w3) \<longrightarrow> configSriov hw ndev w = (Inl e, w3)) \<and>
   (EnableSriov hw ndev w = (None, w1) \<and> GetPfNetdevHandle hw ndev w1 = (Inr h, w2) \<and>
    ConfigVfs hw h True w2 = (None, w3) \<longrightarrow> configSriov hw ndev w = (Inr h, w3))"
  by (simp add: configSriov_def)

text \<open>
  C3. The inventory the builder returns is, in order, one Healthy device for every
  identifier of the contributions of the listed devices: the outcomes are taken in the
  order of the list, one per listed name, a device whose configuration failed contributes
  nothing and the next name is processed on the host as that failure left it. So the
  number of devices is the sum of the sizes of the contributions, a configured device
  contributes one identifier for each virtual function of its handle. A configuration
  fails exactly when EnableSriov, GetPfNetdevHandle or ConfigVfs fails, with the error and
  the host of the failing call; when all three succeed the device is configured, with the
  handle and the host that ConfigVfs left, and contributes the identifiers looked up for
  the virtual functions of that handle. The empty list gives the empty inventory.
\<close>

theorem inventory_is_concatenation:
  "inventory (fst (NewRdmaSriovDevPlugin hw config hp w))
     (fst (snd (NewRdmaSriovDevPlugin hw config hp w))) =
     map (\<lambda>i. Some \<lparr>ID = i, Health = Healthy\<rparr>)
       (concat (map contribution (outcomes hw (PfNetdevices config) w))) \<and>
   length (devs (fst (NewRdmaSriovDevPlugin hw config hp w))) =
     sum_list (map (\<lambda>r. length (contribution r)) (outcomes hw (PfNetdevices config) w)) \<and>
   length (outcomes hw (PfNetdevices config) w) = length (PfNetdevices config) \<and>
   contribution None = [] \<and>
   (case configSriov hw ndev w0 of
      (Inl err, w1) \<Rightarrow> pf_outcome hw ndev w0 = (None, w1)
    | (Inr h, w1) \<Rightarrow>
        (\<exists>ids w2. pf_outcome hw ndev w0 = (Some ids, w2) \<and>
                   length ids = length (PfHandle_List hw h w1))) \<and>
   (EnableSriov hw ndev w0 = (Some e, w1) \<longrightarrow> configSriov hw ndev w0 = (Inl e, w1)) \<and>
   (EnableSriov hw ndev w0 = (None, w1) \<and> GetPfNetdevHandle hw ndev w1 = (Inl e, w2) \<longrightarrow>
      configSriov hw ndev w0 = (Inl e, w2)) \<and>
   (EnableSriov hw ndev w0 = (None, w1) \<and> GetPfNetdevHandle hw ndev w1 = (Inr h0, w2) \<and>
    ConfigVfs hw h0 True w2 = (Some e, w3) \<longrightarrow> configSriov hw ndev w0 = (Inl e, w3)) \<and>
   (EnableSriov hw ndev w0 = (None, w1) \<and> GetPfNetdevHandle hw ndev w1 = (Inr h0, w2) \<and>
    ConfigVfs hw h0 True w2 = (None, w3) \<longrightarrow>
      configSriov hw ndev w0 = (Inr h0, w3) \<and>
      pf_outcome hw ndev w0 =
        (Some (fst (vf_ids hw h0 (PfHandle_List hw h0 w3) w3)),
         snd (vf_ids hw h0 (PfHandle_List hw h0 w3) w3)) \<and>
      length (fst (vf_ids hw h0 (PfHandle_List hw h0 w3) w3)) = length (PfHandle_List hw h0 w3)) \<and>
   devs (fst (NewRdmaSriovDevPlugin hw \<lparr>PfNetdevices = []\<rparr> hp w)) = []"
proof -
  have len: "length (devs (fst (NewRdmaSriovDevPlugin hw config hp w))) =
     sum_list (map (\<lambda>r. length (contribution r)) (outcomes hw (PfNetdevices config) w))"
    using New_spec [of hw config hp w] by (simp add: length_concat comp_def)
  have empty: "devs (fst (NewRdmaSriovDevPlugin hw \<lparr>PfNetdevices = []\<rparr> hp w)) = []"
    by (simp add: NewRdmaSriovDevPlugin_def)
  have none: "contribution None = []"
    by (simp add: contribution_def)
  have ok: "EnableSriov hw ndev w0 = (None, w1) \<and> GetPfNetdevHandle hw ndev w1 = (Inr h0, w2) \<and>
    ConfigVfs hw h0 True w2 = (None, w3) \<longrightarrow>
      configSriov hw ndev w0 = (Inr h0, w3) \<and>
      pf_outcome hw ndev w0 =
        (Some (fst (vf_ids hw h0 (PfHandle_List hw h0 w3) w3)),
         snd (vf_ids hw h0 (PfHandle_List hw h0 w3) w3)) \<and>
      length (fst (vf_ids hw h0 (PfHandle_List hw h0 w3) w3)) = length (PfHandle_List hw h0 w3)"
  proof
    assume a: "EnableSriov hw ndev w0 = (None, w1) \<and> GetPfNetdevHandle hw ndev w1 = (Inr h0, w2) \<and>
      ConfigVfs hw h0 True w2 = (None, w3)"
    then have c: "configSriov hw ndev w0 = (Inr h0, w3)"
      using configSriov_failures [of hw ndev w0 e w1 w2 h0 w3] by blast
    then have "pf_outcome hw ndev w0 =
        (Some (fst (vf_ids hw h0 (PfHandle_List hw h0 w3) w3)),
         snd (vf_ids hw h0 (PfHandle_List hw h0 w3) w3))"
      by (simp add: pf_outcome_def split: prod.splits)
    with c length_vf_ids [of hw h0 "PfHandle_List hw h0 w3" w3]
    show "configSriov hw ndev w0 = (Inr h0, w3) \<and>
      pf_outcome hw ndev w0 =
        (Some (fst (vf_ids hw h0 (PfHandle_List hw h0 w3) w3)),
         snd (vf_ids hw h0 (PfHandle_List hw h0 w3) w3)) \<and>
      length (fst (vf_ids hw h0 (PfHandle_List hw h0 w3) w3)) = length (PfHandle_List hw h0 w3)"
      by simp
  qed
  show ?thesis
    using New_inventory [of hw config hp w] len length_outcomes [of hw "PfNetdevices config" w]
      none pf_outcome_cases [of hw ndev w0] configSriov_failures [of hw ndev w0 e w1 w2 h0 w3] ok
      empty
    by blast
qed

lemmas fake_defs = fake_sriovnet_def pf_outcome_def configSriov_def contribution_def

text \<open>
  Five listed devices on the fake provisioner, the three in the middle failing one at each
  stage of the configuration: the inventory is the two virtual functions of the first and
  the one of the last. A device that passes the three stages is configured and contributes
  the identifier of its virtual function.
\<close>

theorem inventory_is_concatenation_witness:
  "inventory
     (fst (NewRdmaSriovDevPlugin fake_sriovnet
        \<lparr>PfNetdevices = [''ens1f0'', ''bad0'', ''bad1'', ''bad2'', ''ens2'']\<rparr> [] []))
     (fst (snd (NewRdmaSriovDevPlugin fake_sriovnet
        \<lparr>PfNetdevices = [''ens1f0'', ''bad0'', ''bad1'', ''bad2'', ''ens2'']\<rparr> [] []))) =
     [Some \<lparr>ID = ''mac:ens1f0v0'', Health = Healthy\<rparr>,
      Some \<lparr>ID = ''mac:ens1f0v1'', Health = Healthy\<rparr>,
      Some \<lparr>ID = ''mac:ens2v0'', Health = Healthy\<rparr>] \<and>
   length (devs (fst (NewRdmaSriovDevPlugin fake_sriovnet
        \<lparr>PfNetdevices = [''ens1f0'', ''bad0'', ''bad1'', ''bad2'', ''ens2'']\<rparr> [] []))) = 3 \<and>
   configSriov fake_sriovnet ''bad0'' [] = (Inl (Err ''sriov not supported''), []) \<and>
   configSriov fake_sriovnet ''bad1'' [] = (Inl (Err ''no such device''), [''bad1'']) \<and>
   configSriov fake_sriovnet ''bad2'' [] = (Inl (Err ''vf setup failed''), [''bad2'']) \<and>
   configSriov fake_sriovnet ''ens2'' [] = (Inr ''ens2'', [''ens2'']) \<and>
   pf_outcome fake_sriovnet ''ens2'' [] = (Some [''mac:ens2v0''], [''ens2''])"
proof -
  have out: "outcomes fake_sriovnet [''ens1f0'', ''bad0'', ''bad1'', ''bad2'', ''ens2''] [] =
      [Some [''mac:ens1f0v0'', ''mac:ens1f0v1''], None, None, None, Some [''mac:ens2v0'']]"
    by (simp add: fake_defs)
  note inst = inventory_is_concatenation [of fake_sriovnet
        "\<lparr>PfNetdevices = [''ens1f0'', ''bad0'', ''bad1'', ''bad2'', ''ens2'']\<rparr>" "[]" "[]"]
  have en0: "EnableSriov fake_sriovnet ''bad0'' [] = (Some (Err ''sriov not supported''), [])"
    by (simp add: fake_sriovnet_def)
  have bad0: "configSriov fake_sriovnet ''bad0'' [] = (Inl (Err ''sriov not supported''), [])"
    using inst [of "''bad0''" "[]" "Err ''sriov not supported''" "[]"] en0 by blast
  have en1: "EnableSriov fake_sriovnet ''bad1'' [] = (None, [''bad1'']) \<and>
      GetPfNetdevHandle fake_sriovnet ''bad1'' [''bad1''] = (Inl (Err ''no such device''), [''bad1''])"
    by (simp add: fake_sriovnet_def)
  have bad1: "configSriov fake_sriovnet ''bad1'' [] = (Inl (Err ''no such device''), [''bad1''])"
    using inst [of "''bad1''" "[]" "Err ''no such device''" "[''bad1'']" "[''bad1'']"] en1 by blast
  have en2: "EnableSriov fake_sriovnet ''bad2'' [] = (None, [''bad2'']) \<and>
      GetPfNetdevHandle fake_sriovnet ''bad2'' [''bad2''] = (Inr ''bad2'', [''bad2'']) \<and>
      ConfigVfs fake_sriovnet ''bad2'' True [''bad2''] = (Some (Err ''vf setup failed''), [''bad2''])"
    by (simp add: fake_sriovnet_def)
  have bad2: "configSriov fake_sriovnet ''bad2'' [] = (Inl (Err ''vf setup failed''), [''bad2''])"
    using inst [of "''bad2''" "[]" "Err ''vf setup failed''" "[''bad2'']" "[''bad2'']" "''bad2''" "[''bad2'']"]
      en2 by blast
  have inv: "inventory
     (fst (NewRdmaSriovDevPlugin fake_sriovnet
        \<lparr>PfNetdevices = [''ens1f0'', ''bad0'', ''bad1'', ''bad2'', ''ens2'']\<rparr> [] []))
     (fst (snd (NewRdmaSriovDevPlugin fake_sriovnet
        \<lparr>PfNetdevices = [''ens1f0'', ''bad0'', ''bad1'', ''bad2'', ''ens2'']\<rparr> [] []))) =
     [Some \<lparr>ID = ''mac:ens1f0v0'', Health = Healthy\<rparr>,
      Some \<lparr>ID = ''mac:ens1f0v1'', Health = Healthy\<rparr>,
      Some \<lparr>ID = ''mac:ens2v0'', Health = Healthy\<rparr>] \<and>
   length (devs (fst (NewRdmaSriovDevPlugin fake_sriovnet
        \<lparr>PfNetdevices = [''ens1f0'', ''bad0'', ''bad1'', ''bad2'', ''ens2'']\<rparr> [] []))) = 3"
    using inst [unfolded UserConfig.simps out, of "''bad0''" "[]"]
    by (simp add: contribution_def)
  have en3: "EnableSriov fake_sriovnet ''ens2'' [] = (None, [''ens2'']) \<and>
      GetPfNetdevHandle fake_sriovnet ''ens2'' [''ens2''] = (Inr ''ens2'', [''ens2'']) \<and>
      ConfigVfs fake_sriovnet ''ens2'' True [''ens2''] = (None, [''ens2''])"
    by (simp add: fake_sriovnet_def)
  have ids: "vf_ids fake_sriovnet ''ens2'' (PfHandle_List fake_sriovnet ''ens2'' [''ens2'']) [''ens2''] =
      ([''mac:ens2v0''], [''ens2''])"
    by (simp add: fake_sriovnet_def)
  have good: "configSriov fake_sriovnet ''ens2'' [] = (Inr ''ens2'', [''ens2'']) \<and>
      pf_outcome fake_sriovnet ''ens2'' [] = (Some [''mac:ens2v0''], [''ens2''])"
    using inst [of "''ens2''" "[]" _ "[''ens2'']" "[''ens2'']" "''ens2''" "[''ens2'']"] en3
    unfolding ids by simp
  show ?thesis
    using inv bad0 bad1 bad2 good by simp
qed

section \<open>Health is one-way, the inventory is fixed\<close>

lemma Start_devs: "devs (fst (snd (Start m w))) = devs m"
  by (simp add: Start_def Let_def split: prod.splits option.splits sum.splits)

lemma Stop_devs: "devs (fst (snd (Stop m w))) = devs m"
  by (simp add: Stop_def Let_def split: prod.splits option.splits)

lemma Serve_devs: "devs (fst (snd (Serve m w))) = devs m"
proof -
  obtain e m1 w1 where s: "Start m w = (e, m1, w1)"
    by (cases "Start m w")
  then have m1: "devs m1 = devs m"
    using Start_devs [of m w] by simp
  show ?thesis
  proof (cases e)
    case (Some err)
    with s m1 show ?thesis by (simp add: Serve_def)
  next
    case None
    obtain r w2 where reg: "Register m1 KubeletSocket (resourceName m1) w1 = (r, w2)"
      by (cases "Register m1 KubeletSocket (resourceName m1) w1")
    obtain q m2 w3 where st: "Stop m1 w2 = (q, m2, w3)"
      by (cases "Stop m1 w2")
    then have "devs m2 = devs m1"
      using Stop_devs [of m1 w2] by simp
    with s None reg st m1 show ?thesis
      by (cases r; cases q) (simp_all add: Serve_def)
  qed
qed

lemma evolves_refl: "evolves st st"
  by (simp add: evolves_def)

lemma evolves_trans: "evolves a b \<Longrightarrow> evolves b c \<Longrightarrow> evolves a c"
  unfolding evolves_def by (metis (no_types, lifting))

lemma set_Health_step:
  "d < length hp \<Longrightarrow> a < length hp \<Longrightarrow>
   ID (set_Health hp d Unhealthy ! a) = ID (hp ! a) \<and>
   (Health (set_Health hp d Unhealthy ! a) = Health (hp ! a) \<or>
    Health (set_Health hp d Unhealthy ! a) = Unhealthy)"
  by (simp add: set_Health_def nth_list_update)

lemma lw_loop_heap:
  "length (fst (snd (lw_loop m evs hp s))) = length hp \<and>
   (\<forall>a < length hp.
      ID (fst (snd (lw_loop m evs hp s)) ! a) = ID (hp ! a) \<and>
      (Health (fst (snd (lw_loop m evs hp s)) ! a) = Health (hp ! a) \<or>
       Health (fst (snd (lw_loop m evs hp s)) ! a) = Unhealthy))"
proof (induction evs arbitrary: hp s)
  case Nil
  show ?case by simp
next
  case (Cons ev evs)
  show ?case
  proof (cases ev)
    case RecvStop
    then show ?thesis by simp
  next
    case (RecvHealth d)
    show ?thesis
    proof (cases "d < length hp")
      case False
      with RecvHealth show ?thesis by simp
    next
      case True
      let ?hp1 = "set_Health hp d Unhealthy"
      let ?s1 = "snd (Send \<lparr>Devices = map (deref ?hp1) (devs m)\<rparr> s)"
      have run: "lw_loop m (ev # evs) hp s = lw_loop m evs ?hp1 ?s1"
        using True RecvHealth by (simp add: Let_def split: prod.splits)
      have len: "length ?hp1 = length hp"
        by (rule length_set_Health)
      show ?thesis
        unfolding run
        using Cons.IH [of ?hp1 ?s1] set_Health_step [OF True] len
        by (metis (no_types, lifting))
    qed
  qed
qed

lemma exec_evolves: "evolves st (exec c st)"
proof (cases c)
  case OpStart
  then show ?thesis
    using Start_devs [of "plugin st" "os st"]
    by (auto simp add: evolves_def split: prod.splits)
next
  case OpStop
  then show ?thesis
    using Stop_devs [of "plugin st" "os st"]
    by (auto simp add: evolves_def split: prod.splits)
next
  case (OpRegister k r)
  then show ?thesis
    by (auto simp add: evolves_def split: prod.splits)
next
  case OpServe
  then show ?thesis
    using Serve_devs [of "plugin st" "os st"]
    by (auto simp add: evolves_def split: prod.splits)
next
  case (OpListAndWatch evs s)
  have "\<exists>s1. ListAndWatch (plugin st) evs (objects st) s = lw_loop (plugin st) evs (objects st) s1"
    unfolding ListAndWatch_def Send_def Let_def prod.case by (rule exI) (rule refl)
  then obtain s1 where
    s1: "ListAndWatch (plugin st) evs (objects st) s = lw_loop (plugin st) evs (objects st) s1"
    by blast
  show ?thesis
    using OpListAndWatch lw_loop_heap [of "plugin st" evs "objects st" s1]
    by (auto simp add: evolves_def s1 split: prod.splits)
next
  case (OpAllocate r)
  then show ?thesis by (auto simp add: evolves_def split: prod.splits)
next
  case OpGetDevicePluginOptions
  then show ?thesis by (auto simp add: evolves_def split: prod.splits)
next
  case OpPreStartContainer
  then show ?thesis by (auto simp add: evolves_def split: prod.splits)
qed

lemma run_evolves: "evolves st (run ops st)"
proof (induction ops rule: rev_induct)
  case Nil
  show ?case by (simp add: run_def evolves_refl)
next
  case (snoc c ops)
  have "run (ops @ [c]) st = exec c (run ops st)"
    by (simp add: run_def)
  with snoc exec_evolves [of "run ops st" c] show ?case
    by (simp add: evolves_trans)
qed

lemma New_healthy:
  "map (map_option Health)
     (inventory (fst (NewRdmaSriovDevPlugin hw config hp w))
        (fst (snd (NewRdmaSriovDevPlugin hw config hp w)))) =
   replicate (length (devs (fst (NewRdmaSriovDevPlugin hw config hp w)))) (Some Healthy)"
proof -
  have len: "length (devs (fst (NewRdmaSriovDevPlugin hw config hp w))) =
      length (concat (map contribution (outcomes hw (PfNetdevices config) w)))"
    using New_spec [of hw config hp w] by simp
  show ?thesis
    unfolding New_inventory len by (simp add: comp_def map_replicate_const)
qed

lemma New_devs_valid:
  "a \<in> set (devs (fst (NewRdmaSriovDevPlugin hw config hp w))) \<Longrightarrow>
   a < length (fst (snd (NewRdmaSriovDevPlugin hw config hp w))) \<and>
   Health (fst (snd (NewRdmaSriovDevPlugin hw config hp w)) ! a) = Healthy"
  using New_spec [of hw config hp w]
  by (auto simp add: nth_append)

lemma evolves_cell:
  assumes "evolves st st'" and "a < length (objects st)"
  shows "deref (objects st') a = Some (objects st' ! a) \<and>
         deref (objects st) a = Some (objects st ! a) \<and>
         ID (objects st' ! a) = ID (objects st ! a) \<and>
         (Health (objects st' ! a) = Health (objects st ! a) \<or>
          Health (objects st' ! a) = Unhealthy)"
  using assms by (simp add: evolves_def deref_def)

lemma evolves_inventory_ids:
  assumes "evolves st st'" and "\<forall>a \<in> set (devs (plugin st)). a < length (objects st)"
  shows "map (map_option ID) (inventory (plugin st') (objects st')) =
         map (map_option ID) (inventory (plugin st) (objects st))"
proof -
  have d: "devs (plugin st') = devs (plugin st)"
    using assms(1) by (simp add: evolves_def)
  have "map_option ID (deref (objects st') a) = map_option ID (deref (objects st) a)"
    if "a \<in> set (devs (plugin st))" for a
    using evolves_cell [OF assms(1), of a] assms(2) that by simp
  then show ?thesis
    by (simp add: inventory_def d)
qed

text \<open>
  C4. Every device of the inventory the builder returns is Healthy. Every call on the
  plugin, and so every sequence of calls, leaves the list of device pointers, the number of
  objects and every identifier as they were, and leaves the health of an object as it was
  or makes it Unhealthy; an Unhealthy object stays Unhealthy. From the state the builder
  returns, whatever calls are made, the inventory keeps its identifiers and each of its
  devices is Healthy or Unhealthy.
\<close>

theorem health_one_way:
  "map (map_option Health)
     (inventory (fst (NewRdmaSriovDevPlugin hw config hp w))
        (fst (snd (NewRdmaSriovDevPlugin hw config hp w)))) =
     replicate (length (devs (fst (NewRdmaSriovDevPlugin hw config hp w)))) (Some Healthy) \<and>
   evolves st (exec c st) \<and>
   evolves st (run ops st) \<and>
   (\<forall>a < length (objects st).
      Health (objects st ! a) = Unhealthy \<longrightarrow> Health (objects (run ops st) ! a) = Unhealthy) \<and>
   (plugin st0 = fst (NewRdmaSriovDevPlugin hw config hp w) \<and>
    objects st0 = fst (snd (NewRdmaSriovDevPlugin hw config hp w)) \<longrightarrow>
      map (map_option ID) (inventory (plugin (run ops st0)) (objects (run ops st0))) =
        map (map_option ID) (inventory (plugin st0) (objects st0)) \<and>
      (\<forall>x \<in> set (map (map_option Health)
                    (inventory (plugin (run ops st0)) (objects (run ops st0)))).
         x = Some Healthy \<or> x = Some Unhealthy))"
proof (intro conjI impI)
  show "map (map_option Health)
     (inventory (fst (NewRdmaSriovDevPlugin hw config hp w))
        (fst (snd (NewRdmaSriovDevPlugin hw config hp w)))) =
     replicate (length (devs (fst (NewRdmaSriovDevPlugin hw config hp w)))) (Some Healthy)"
    by (rule New_healthy)
next
  show "evolves st (exec c st)"
    by (rule exec_evolves)
next
  show "evolves st (run ops st)"
    by (rule run_evolves)
next
  show "\<forall>a < length (objects st).
      Health (objects st ! a) = Unhealthy \<longrightarrow> Health (objects (run ops st) ! a) = Unhealthy"
    using run_evolves [of st ops] unfolding evolves_def by metis
next
  assume built: "plugin st0 = fst (NewRdmaSriovDevPlugin hw config hp w) \<and>
    objects st0 = fst (snd (NewRdmaSriovDevPlugin hw config hp w))"
  have valid: "\<forall>a \<in> set (devs (plugin st0)). a < length (objects st0)"
    using built New_devs_valid [of _ hw config hp w] by simp
  show "map (map_option ID) (inventory (plugin (run ops st0)) (objects (run ops st0))) =
        map (map_option ID) (inventory (plugin st0) (objects st0))"
    using run_evolves valid by (rule evolves_inventory_ids)
  have d: "devs (plugin (run ops st0)) = devs (plugin st0)"
    using run_evolves [of st0 ops] by (simp add: evolves_def)
  show "\<forall>x \<in> set (map (map_option Health)
                    (inventory (plugin (run ops st0)) (objects (run ops st0)))).
         x = Some Healthy \<or> x = Some Unhealthy"
  proof
    fix x
    assume "x \<in> set (map (map_option Health)
                    (inventory (plugin (run ops st0)) (objects (run ops st0))))"
    then obtain a where a: "a \<in> set (devs (plugin st0))"
      and x: "x = map_option Health (deref (objects (run ops st0)) a)"
      by (auto simp add: inventory_def d)
    from a valid have lt: "a < length (objects st0)"
      by simp
    have h: "Health (objects st0 ! a) = Healthy"
      using built a New_devs_valid [of a hw config hp w] by simp
    show "x = Some Healthy \<or> x = Some Unhealthy"
      using evolves_cell [OF run_evolves lt, of ops] h x by auto
  qed
qed

text \<open>
  Start, a ListAndWatch that receives a signal for the second device, Stop and Allocate:
  the identifiers are those the builder gave, the second device is Unhealthy; and it is
  still Unhealthy after another ListAndWatch and a Serve.
\<close>

theorem health_one_way_witness:
  "map (map_option ID)
     (inventory
        (plugin (run [OpStart, OpListAndWatch [RecvHealth 1, RecvStop] fake_stream, OpStop, OpAllocate None]
           \<lparr>plugin = fst (NewRdmaSriovDevPlugin fake_sriovnet \<lparr>PfNetdevices = [''ens1f0'']\<rparr> [] []),
            objects = fst (snd (NewRdmaSriovDevPlugin fake_sriovnet \<lparr>PfNetdevices = [''ens1f0'']\<rparr> [] [])),
            os = fake_host\<rparr>))
        (objects (run [OpStart, OpListAndWatch [RecvHealth 1, RecvStop] fake_stream, OpStop, OpAllocate None]
           \<lparr>plugin = fst (NewRdmaSriovDevPlugin fake_sriovnet \<lparr>PfNetdevices = [''ens1f0'']\<rparr> [] []),
            objects = fst (snd (NewRdmaSriovDevPlugin fake_sriovnet \<lparr>PfNetdevices = [''ens1f0'']\<rparr> [] [])),
            os = fake_host\<rparr>))) =
   [Some ''mac:ens1f0v0'', Some ''mac:ens1f0v1''] \<and>
   map (map_option Health)
     (inventory
        (plugin (run [OpStart, OpListAndWatch [RecvHealth 1, RecvStop] fake_stream, OpStop, OpAllocate None]
           \<lparr>plugin = fst (NewRdmaSriovDevPlugin fake_sriovnet \<lparr>PfNetdevices = [''ens1f0'']\<rparr> [] []),
            objects = fst (snd (NewRdmaSriovDevPlugin fake_sriovnet \<lparr>PfNetdevices = [''ens1f0'']\<rparr> [] [])),
            os = fake_host\<rparr>))
        (objects (run [OpStart, OpListAndWatch [RecvHealth 1, RecvStop] fake_stream, OpStop, OpAllocate None]
           \<lparr>plugin = fst (NewRdmaSriovDevPlugin fake_sriovnet \<lparr>PfNetdevices = [''ens1f0'']\<rparr> [] []),
            objects = fst (snd (NewRdmaSriovDevPlugin fake_sriovnet \<lparr>PfNetdevices = [''ens1f0'']\<rparr> [] [])),
            os = fake_host\<rparr>))) =
   [Some Healthy, Some Unhealthy] \<and>
   Health (objects (run [OpListAndWatch [RecvHealth 0, RecvHealth 1] fake_stream, OpServe]
     (run [OpStart, OpListAndWatch [RecvHealth 1, RecvStop] fake_stream, OpStop, OpAllocate None]
           \<lparr>plugin = fst (NewRdmaSriovDevPlugin fake_sriovnet \<lparr>PfNetdevices = [''ens1f0'']\<rparr> [] []),
            objects = fst (snd (NewRdmaSriovDevPlugin fake_sriovnet \<lparr>PfNetdevices = [''ens1f0'']\<rparr> [] [])),
            os = fake_host\<rparr>)) ! 1) = Unhealthy"
proof -
  let ?m = "fst (NewRdmaSriovDevPlugin fake_sriovnet \<lparr>PfNetdevices = [''ens1f0'']\<rparr> [] [])"
  let ?hp = "fst (snd (NewRdmaSriovDevPlugin fake_sriovnet \<lparr>PfNetdevices = [''ens1f0'']\<rparr> [] []))"
  let ?init = "\<lparr>plugin = ?m, objects = ?hp, os = fake_host\<rparr>"
  let ?ops = "[OpStart, OpListAndWatch [RecvHealth 1, RecvStop] fake_stream, OpStop, OpAllocate None]"
  let ?later = "[OpListAndWatch [RecvHealth 0, RecvHealth 1] fake_stream, OpServe]"
  have built: "plugin ?init = ?m \<and> objects ?init = ?hp"
    by simp
  have ids: "map (map_option ID) (inventory (plugin ?init) (objects ?init)) =
      [Some ''mac:ens1f0v0'', Some ''mac:ens1f0v1'']"
    by (simp add: NewRdmaSriovDevPlugin_def configSriov_def fake_sriovnet_def new_Device_def
        inventory_def deref_def)
  have same: "map (map_option ID) (inventory (plugin (run ?ops ?init)) (objects (run ?ops ?init))) =
      map (map_option ID) (inventory (plugin ?init) (objects ?init))"
    using health_one_way [of fake_sriovnet "\<lparr>PfNetdevices = [''ens1f0'']\<rparr>" "[]" "[]" _ _ ?ops ?init]
      built by blast
  have health: "map (map_option Health) (inventory (plugin (run ?ops ?init)) (objects (run ?ops ?init))) =
      [Some Healthy, Some Unhealthy]"
    by code_simp
  have now: "1 < length (objects (run ?ops ?init)) \<and> Health (objects (run ?ops ?init) ! 1) = Unhealthy"
    by code_simp
  have stays: "Health (objects (run ?later (run ?ops ?init)) ! 1) = Unhealthy"
    using health_one_way [of fake_sriovnet "\<lparr>PfNetdevices = [''ens1f0'']\<rparr>" "[]" "[]"
        "run ?ops ?init" _ ?later] now
    by blast
  show ?thesis
    using same ids health stays by simp
qed

section \<open>Identifiers\<close>

text \<open>
  C6 as stated does not hold: the builder does not remove duplicates from the list, so a
  device listed twice puts each of its identifiers into the inventory twice.
\<close>

theorem inventory_ids_not_unique:
  "\<not> distinct (map (map_option ID)
       (inventory
          (fst (NewRdmaSriovDevPlugin fake_sriovnet \<lparr>PfNetdevices = [''ens1f0'', ''ens1f0'']\<rparr> [] []))
          (fst (snd (NewRdmaSriovDevPlugin fake_sriovnet
             \<lparr>PfNetdevices = [''ens1f0'', ''ens1f0'']\<rparr> [] [])))))"
  by (simp add: NewRdmaSriovDevPlugin_def configSriov_def fake_sriovnet_def new_Device_def
      inventory_def deref_def)

text \<open>
  C6, amended. The builder copies every identifier from the MAC address lookup as it comes
  and checks nothing: the identifiers of the inventory are, in order, the identifiers
  looked up for the virtual functions of the configured devices, so they are pairwise
  different exactly when those looked-up identifiers are. The device objects themselves
  are pairwise different.
\<close>

theorem inventory_ids_copied:
  "map (map_option ID)
     (inventory (fst (NewRdmaSriovDevPlugin hw config hp w))
        (fst (snd (NewRdmaSriovDevPlugin hw config hp w)))) =
     map Some (concat (map contribution (outcomes hw (PfNetdevices config) w))) \<and>
   distinct (map (map_option ID)
     (inventory (fst (NewRdmaSriovDevPlugin hw config hp w))
        (fst (snd (NewRdmaSriovDevPlugin hw config hp w))))) =
     distinct (concat (map contribution (outcomes hw (PfNetdevices config) w))) \<and>
   distinct (devs (fst (NewRdmaSriovDevPlugin hw config hp w)))"
proof -
  have ids: "map (map_option ID)
     (inventory (fst (NewRdmaSriovDevPlugin hw config hp w))
        (fst (snd (NewRdmaSriovDevPlugin hw config hp w)))) =
     map Some (concat (map contribution (outcomes hw (PfNetdevices config) w)))"
    unfolding New_inventory by (simp add: comp_def)
  have "distinct (map Some xs) = distinct xs" for xs :: "string list"
    by (simp add: distinct_map)
  then show ?thesis
    using ids New_spec [of hw config hp w] by simp
qed

text \<open>
  Two different devices on the fake provisioner, whose addresses differ: unique identifiers.
\<close>

theorem inventory_ids_copied_witness:
  "distinct (map (map_option ID)
     (inventory
        (fst (NewRdmaSriovDevPlugin fake_sriovnet \<lparr>PfNetdevices = [''ens1f0'', ''ens2'']\<rparr> [] []))
        (fst (snd (NewRdmaSriovDevPlugin fake_sriovnet \<lparr>PfNetdevices = [''ens1f0'', ''ens2'']\<rparr> [] [])))))"
proof -
  have out: "outcomes fake_sriovnet [''ens1f0'', ''ens2''] [] =
      [Some [''mac:ens1f0v0'', ''mac:ens1f0v1''], Some [''mac:ens2v0'']]"
    by (simp add: fake_defs)
  note inst = inventory_ids_copied [of fake_sriovnet "\<lparr>PfNetdevices = [''ens1f0'', ''ens2'']\<rparr>" "[]" "[]"]
  show ?thesis
    using inst [unfolded UserConfig.simps out]
    by (simp add: contribution_def)
qed

section \<open>Lifecycle: Stop and Serve\<close>

lemma cleanup_cases:
  "cleanup m w = (e, w1) \<Longrightarrow>
   readonly w1 = readonly w \<and> listening w1 = listening w \<and> registered w1 = registered w \<and>
   (e = None \<longrightarrow> socket m \<notin> files w1) \<and>
   (socket m \<notin> readonly w \<longrightarrow> e = None)"
  by (auto simp add: cleanup_def os_Remove_def os_IsNotExist_def split: if_splits)

lemma Start_fails:
  "Start m w = (Some e, m1, w1) \<Longrightarrow> registered w1 = registered w"
  by (auto simp add: Start_def Let_def net_Listen_def dest!: cleanup_cases
      split: prod.splits option.splits sum.splits if_splits)

lemma Start_succeeds:
  assumes "Start m w = (None, m1, w1)"
  shows "m1 = m\<lparr>server := Some (Server [socket m])\<rparr> \<and>
         socket m \<notin> readonly w1 \<and> socket m \<in> files w1 \<and> socket m \<in> listening w1 \<and>
         registered w1 = registered w"
proof -
  obtain w0 where c: "cleanup m w = (None, w0)"
    using assms by (auto simp add: Start_def split: prod.splits option.splits)
  from assms c obtain sock where l: "net_Listen (socket m) w0 = (Inr sock, w1)"
    by (auto simp add: Start_def Let_def split: prod.splits sum.splits)
  from l have w1: "sock = socket m \<and> socket m \<notin> readonly w0 \<and>
      w1 = w0\<lparr>files := insert (socket m) (files w0), listening := insert (socket m) (listening w0)\<rparr>"
    by (auto simp add: net_Listen_def split: if_splits option.splits)
  from assms c l w1 have m1: "m1 = m\<lparr>server := Some (Server [socket m])\<rparr>"
    by (auto simp add: Start_def Let_def grpc_NewServer_def split: sum.splits)
  show ?thesis
    using m1 w1 cleanup_cases [OF c] by simp
qed

lemma Register_fails:
  "Register m k r w = (Some e, w1) \<Longrightarrow> w1 = w"
  by (auto simp add: Register_def Let_def client_Register_def split: sum.splits option.splits prod.splits)

lemma Stop_started:
  assumes "server m = Some srv" and "stop m = Open"
  shows "Stop m w =
           (Return (fst (cleanup m (grpc_Stop srv w))),
            m\<lparr>server := None, stop := Closed\<rparr>,
            snd (cleanup m (grpc_Stop srv w)))"
proof -
  have "cleanup (m\<lparr>server := None, stop := Closed\<rparr>) w' = cleanup m w'" for w'
    by (simp add: cleanup_def)
  then show ?thesis
    using assms by (simp add: Stop_def Let_def split: prod.splits)
qed

lemma Stop_not_started: "server m = None \<Longrightarrow> Stop m w = (Return None, m, w)"
  by (simp add: Stop_def)

text \<open>
  C8. When Stop has returned on a started plugin, a second Stop changes nothing and
  returns nil: the stop channel, closed by the first call, is not closed again; and when
  the first Stop returned nil the socket file does not exist. After a Start that succeeded
  on a plugin that was not stopped before, Stop does return nil, the socket file that Start
  created is gone, and the second Stop is the no-op. On a plugin that was never started
  Stop changes nothing and returns nil.
\<close>

theorem Stop_twice:
  "(\<forall>e m1 w1. server m \<noteq> None \<and> Stop m w = (Return e, m1, w1) \<longrightarrow>
      Stop m1 w1 = (Return None, m1, w1) \<and> stop m1 = Closed \<and>
      (e = None \<longrightarrow> socket m \<notin> files w1)) \<and>
   (\<forall>m0 w0. Start m0 w0 = (None, m, w) \<and> stop m0 = Open \<longrightarrow>
      (\<exists>m1 w1. Stop m w = (Return None, m1, w1) \<and> socket m0 \<notin> files w1 \<and>
                 Stop m1 w1 = (Return None, m1, w1))) \<and>
   (server m = None \<longrightarrow> Stop m w = (Return None, m, w))"
proof (intro conjI allI impI)
  fix e m1 w1
  assume a: "server m \<noteq> None \<and> Stop m w = (Return e, m1, w1)"
  then obtain srv where srv: "server m = Some srv"
    by auto
  from a srv have op: "stop m = Open"
    by (cases "stop m") (auto simp add: Stop_def Let_def split: prod.splits)
  from a have r: "(Return e, m1, w1) =
      (Return (fst (cleanup m (grpc_Stop srv w))), m\<lparr>server := None, stop := Closed\<rparr>,
       snd (cleanup m (grpc_Stop srv w)))"
    using Stop_started [OF srv op, of w] by simp
  then have m1: "m1 = m\<lparr>server := None, stop := Closed\<rparr>"
    and c: "cleanup m (grpc_Stop srv w) = (e, w1)"
    by simp_all
  show "Stop m1 w1 = (Return None, m1, w1)"
    using m1 by (simp add: Stop_not_started)
  show "stop m1 = Closed"
    using m1 by simp
  show "socket m \<notin> files w1" if "e = None"
    using cleanup_cases [OF c] that by simp
next
  fix m0 w0
  assume a: "Start m0 w0 = (None, m, w) \<and> stop m0 = Open"
  then have s: "m = m0\<lparr>server := Some (Server [socket m0])\<rparr>" "socket m0 \<notin> readonly w"
    using Start_succeeds [of m0 w0 m w] by simp_all
  let ?w' = "grpc_Stop (Server [socket m0]) w"
  obtain e w1 where c: "cleanup m ?w' = (e, w1)"
    by (cases "cleanup m ?w'")
  have "socket m \<notin> readonly ?w'"
    using s by simp
  with cleanup_cases [OF c] s have e: "e = None" and f: "socket m0 \<notin> files w1"
    by simp_all
  have st: "Stop m w = (Return None, m\<lparr>server := None, stop := Closed\<rparr>, w1)"
    using Stop_started [of m "Server [socket m0]" w] s a c e by simp
  have "Stop (m\<lparr>server := None, stop := Closed\<rparr>) w1 =
      (Return None, m\<lparr>server := None, stop := Closed\<rparr>, w1)"
    by (simp add: Stop_not_started)
  with st f show "\<exists>m1 w1. Stop m w = (Return None, m1, w1) \<and> socket m0 \<notin> files w1 \<and>
                 Stop m1 w1 = (Return None, m1, w1)"
    by blast
next
  assume "server m = None"
  then show "Stop m w = (Return None, m, w)"
    by (rule Stop_not_started)
qed

lemma Stop_of_started:
  assumes "server m = Some srv"
  shows "server (fst (snd (Stop m w))) = None \<and>
         listening (snd (snd (Stop m w))) = listening (grpc_Stop srv w)"
proof (cases "stop m")
  case Open
  obtain r w3 where c: "cleanup m (grpc_Stop srv w) = (r, w3)"
    by (cases "cleanup m (grpc_Stop srv w)")
  have "listening w3 = listening (grpc_Stop srv w)"
    using cleanup_cases [OF c] by simp
  moreover have "cleanup (m\<lparr>server := None, stop := Closed\<rparr>) (grpc_Stop srv w) = (r, w3)"
    using c by (simp add: cleanup_def)
  ultimately show ?thesis
    using assms Open by (simp add: Stop_def Let_def)
next
  case Closed
  with assms show ?thesis
    by (simp add: Stop_def Let_def)
qed

lemma Serve_runs_Stop:
  assumes "Start m w = (None, m1, w1)"
    and "Register m1 KubeletSocket (resourceName m1) w1 = (Some e, w2)"
  shows "snd (Serve m w) = snd (Stop m1 w2) \<and>
         (\<forall>r. fst (Stop m1 w2) = Return r \<longrightarrow> fst (Serve m w) = Return (Some e))"
proof -
  obtain q m2 w3 where st: "Stop m1 w2 = (q, m2, w3)"
    by (cases "Stop m1 w2")
  show ?thesis
    using assms st by (cases q) (simp_all add: Serve_def)
qed

text \<open>
  C9 as stated does not hold for a plugin that was stopped before. Serve is called on a
  plugin from the builder while the node agent refuses the registration, and returns the
  error of the registration after its Stop. Serve is called again on the same plugin: Start
  succeeds, the registration fails again, and the call panics in Stop, where the stop
  channel is closed a second time; it returns no error.
\<close>

theorem Serve_again_panics:
  "fst (Serve (fst (NewRdmaSriovDevPlugin fake_sriovnet \<lparr>PfNetdevices = [''ens1f0'']\<rparr> [] []))
      (fake_host\<lparr>register_fault := \<lambda>reqt. Some (Err ''refused'')\<rparr>)) =
     Return (Some (Err ''refused'')) \<and>
   fst (Start
     (fst (snd (Serve (fst (NewRdmaSriovDevPlugin fake_sriovnet \<lparr>PfNetdevices = [''ens1f0'']\<rparr> [] []))
        (fake_host\<lparr>register_fault := \<lambda>reqt. Some (Err ''refused'')\<rparr>))))
     (snd (snd (Serve (fst (NewRdmaSriovDevPlugin fake_sriovnet \<lparr>PfNetdevices = [''ens1f0'']\<rparr> [] []))
        (fake_host\<lparr>register_fault := \<lambda>reqt. Some (Err ''refused'')\<rparr>))))) = None \<and>
   fst (Register
     (fst (snd (Start
       (fst (snd (Serve (fst (NewRdmaSriovDevPlugin fake_sriovnet \<lparr>PfNetdevices = [''ens1f0'']\<rparr> [] []))
          (fake_host\<lparr>register_fault := \<lambda>reqt. Some (Err ''refused'')\<rparr>))))
       (snd (snd (Serve (fst (NewRdmaSriovDevPlugin fake_sriovnet \<lparr>PfNetdevices = [''ens1f0'']\<rparr> [] []))
          (fake_host\<lparr>register_fault := \<lambda>reqt. Some (Err ''refused'')\<rparr>)))))))
     KubeletSocket RdmaSriovResourceName
     (snd (snd (Start
       (fst (snd (Serve (fst (NewRdmaSriovDevPlugin fake_sriovnet \<lparr>PfNetdevices = [''ens1f0'']\<rparr> [] []))
          (fake_host\<lparr>register_fault := \<lambda>reqt. Some (Err ''refused'')\<rparr>))))
       (snd (snd (Serve (fst (NewRdmaSriovDevPlugin fake_sriovnet \<lparr>PfNetdevices = [''ens1f0'']\<rparr> [] []))
          (fake_host\<lparr>register_fault := \<lambda>reqt. Some (Err ''refused'')\<rparr>)))))))) =
     Some (Err ''refused'') \<and>
   fst (Serve
     (fst (snd (Serve (fst (NewRdmaSriovDevPlugin fake_sriovnet \<lparr>PfNetdevices = [''ens1f0'']\<rparr> [] []))
        (fake_host\<lparr>register_fault := \<lambda>reqt. Some (Err ''refused'')\<rparr>))))
     (snd (snd (Serve (fst (NewRdmaSriovDevPlugin fake_sriovnet \<lparr>PfNetdevices = [''ens1f0'']\<rparr> [] []))
        (fake_host\<lparr>register_fault := \<lambda>reqt. Some (Err ''refused'')\<rparr>))))) =
     Panic ''close of closed channel''"
  by code_simp

text \<open>
  C9, amended. When Start fails, Serve returns the error of Start, in the state Start left,
  and the node agent has accepted no registration. When Start succeeds and the registration
  fails, Serve calls Stop on the started plugin: it leaves the plugin and the host as that
  Stop leaves them, with the server stopped and forgotten and nothing listening on the
  socket, and it returns the error of the registration whenever that Stop returns. On a
  plugin whose stop channel is open, that is one not stopped before, that Stop does return,
  with the stop channel closed and the socket file removed, the node agent has accepted no
  registration, and Serve returns the error of the registration.
\<close>

theorem Serve_compensates:
  "(\<forall>e m1 w1. Start m w = (Some e, m1, w1) \<longrightarrow>
      Serve m w = (Return (Some e), m1, w1) \<and> registered w1 = registered w) \<and>
   (\<forall>e m1 w1 w2.
      Start m w = (None, m1, w1) \<and>
      Register m1 KubeletSocket (resourceName m1) w1 = (Some e, w2) \<longrightarrow>
      snd (Serve m w) = snd (Stop m1 w2) \<and>
      server (fst (snd (Serve m w))) = None \<and>
      socket m \<notin> listening (snd (snd (Serve m w))) \<and>
      (\<forall>r. fst (Stop m1 w2) = Return r \<longrightarrow> fst (Serve m w) = Return (Some e))) \<and>
   (\<forall>e m1 w1 w2.
      Start m w = (None, m1, w1) \<and>
      Register m1 KubeletSocket (resourceName m1) w1 = (Some e, w2) \<and> stop m = Open \<longrightarrow>
      (\<exists>m2 w3. Stop m1 w2 = (Return None, m2, w3) \<and>
         Serve m w = (Return (Some e), m2, w3) \<and>
         server m2 = None \<and> stop m2 = Closed \<and>
         socket m \<notin> listening w3 \<and> socket m \<notin> files w3 \<and>
         registered w3 = registered w))"
proof (intro conjI allI impI)
  fix e m1 w1
  assume a: "Start m w = (Some e, m1, w1)"
  then show "Serve m w = (Return (Some e), m1, w1)"
    by (simp add: Serve_def)
  from a show "registered w1 = registered w"
    by (rule Start_fails)
next
  fix e m1 w1 w2
  assume a: "Start m w = (None, m1, w1) \<and>
      Register m1 KubeletSocket (resourceName m1) w1 = (Some e, w2)"
  then have st: "Start m w = (None, m1, w1)"
    and reg: "Register m1 KubeletSocket (resourceName m1) w1 = (Some e, w2)"
    by simp_all
  have srv: "server m1 = Some (Server [socket m])"
    using Start_succeeds [OF st] by simp
  note run = Serve_runs_Stop [OF st reg]
  show "snd (Serve m w) = snd (Stop m1 w2)"
    using run by simp
  show "server (fst (snd (Serve m w))) = None"
    using run Stop_of_started [OF srv, of w2] by simp
  show "socket m \<notin> listening (snd (snd (Serve m w)))"
    using run Stop_of_started [OF srv, of w2] by simp
  show "fst (Serve m w) = Return (Some e)" if "fst (Stop m1 w2) = Return r" for r
    using run that by blast
next
  fix e m1 w1 w2
  assume a: "Start m w = (None, m1, w1) \<and>
      Register m1 KubeletSocket (resourceName m1) w1 = (Some e, w2) \<and> stop m = Open"
  then have st: "Start m w = (None, m1, w1)"
    and reg: "Register m1 KubeletSocket (resourceName m1) w1 = (Some e, w2)"
    and op: "stop m = Open"
    by simp_all
  have s: "m1 = m\<lparr>server := Some (Server [socket m])\<rparr>" "socket m \<notin> readonly w1"
      "registered w1 = registered w"
    using Start_succeeds [OF st] by simp_all
  have w2: "w2 = w1"
    using reg by (rule Register_fails)
  let ?w' = "grpc_Stop (Server [socket m]) w1"
  obtain r w3 where c: "cleanup m1 ?w' = (r, w3)"
    by (cases "cleanup m1 ?w'")
  have "socket m1 \<notin> readonly ?w'"
    using s by simp
  with cleanup_cases [OF c] s have r: "r = None" and f: "socket m \<notin> files w3"
    and l: "listening w3 = listening w1 - {socket m}" and g: "registered w3 = registered w"
    by simp_all
  have stop: "Stop m1 w2 = (Return None, m1\<lparr>server := None, stop := Closed\<rparr>, w3)"
    using Stop_started [of m1 "Server [socket m]" w1] s op c r w2 by simp
  have "Serve m w = (Return (Some e), m1\<lparr>server := None, stop := Closed\<rparr>, w3)"
    using st reg stop by (simp add: Serve_def)
  with stop f l g show "\<exists>m2 w3. Stop m1 w2 = (Return None, m2, w3) \<and>
         Serve m w = (Return (Some e), m2, w3) \<and>
         server m2 = None \<and> stop m2 = Closed \<and>
         socket m \<notin> listening w3 \<and> socket m \<notin> files w3 \<and>
         registered w3 = registered w"
    by simp
qed

lemma Start_health: "health (fst (snd (Start m w))) = health m \<and> stop (fst (snd (Start m w))) = stop m"
  by (simp add: Start_def Let_def split: prod.splits option.splits sum.splits)

lemma Stop_health: "health (fst (snd (Stop m w))) = health m"
  by (simp add: Stop_def Let_def split: prod.splits option.splits)

lemma Serve_health: "health (fst (snd (Serve m w))) = health m"
proof -
  obtain e m1 w1 where s: "Start m w = (e, m1, w1)"
    by (cases "Start m w")
  then have m1: "health m1 = health m"
    using Start_health [of m w] by simp
  show ?thesis
  proof (cases e)
    case (Some err)
    with s m1 show ?thesis by (simp add: Serve_def)
  next
    case None
    obtain r w2 where reg: "Register m1 KubeletSocket (resourceName m1) w1 = (r, w2)"
      by (cases "Register m1 KubeletSocket (resourceName m1) w1")
    obtain q m2 w3 where st: "Stop m1 w2 = (q, m2, w3)"
      by (cases "Stop m1 w2")
    then have "health m2 = health m1"
      using Stop_health [of m1 w2] by simp
    with s None reg st m1 show ?thesis
      by (cases r; cases q) (simp_all add: Serve_def)
  qed
qed

lemma exec_health: "health (plugin (exec c st)) = health (plugin st)"
proof (cases c)
  case OpStart
  then show ?thesis
    using Start_health [of "plugin st" "os st"] by (auto split: prod.splits)
next
  case OpStop
  then show ?thesis
    using Stop_health [of "plugin st" "os st"] by (auto split: prod.splits)
next
  case OpServe
  then show ?thesis
    using Serve_health [of "plugin st" "os st"] by (auto split: prod.splits)
qed (auto split: prod.splits)

lemma run_health: "health (plugin (run ops st)) = health (plugin st)"
proof (induction ops rule: rev_induct)
  case Nil
  show ?case by (simp add: run_def)
next
  case (snoc c ops)
  have "run (ops @ [c]) st = exec c (run ops st)"
    by (simp add: run_def)
  with snoc exec_health [of c "run ops st"] show ?case
    by simp
qed

text \<open>
  C5, amended. On a started plugin whose stop channel is open, Stop stops the server,
  forgets it, closes the stop channel and runs cleanup, whose error it returns; when that
  is nil the socket file is gone. Stop leaves the health channel as it is, and so does
  every sequence of calls: nothing closes it. With the stop channel closed, the select of a
  running ListAndWatch can take the stop case and also the receive from every sender
  blocked on the health channel; it is when it takes the stop case that ListAndWatch
  returns and consumes no further signal.
\<close>

theorem Stop_closes_stop_channel:
  "(server m = Some srv \<and> stop m = Open \<longrightarrow>
      Stop m w =
        (Return (fst (cleanup m (grpc_Stop srv w))),
         m\<lparr>server := None, stop := Closed\<rparr>,
         snd (cleanup m (grpc_Stop srv w))) \<and>
      (fst (cleanup m (grpc_Stop srv w)) = None \<longrightarrow>
         socket m \<notin> files (snd (cleanup m (grpc_Stop srv w))))) \<and>
   health (fst (snd (Stop m w))) = health m \<and>
   health (plugin (run ops st)) = health (plugin st) \<and>
   (stop m1 = Closed \<longrightarrow> select_ready m1 senders = RecvStop # map RecvHealth senders) \<and>
   lw_loop m1 (RecvStop # evs) hp s = (Return None, hp, s)"
proof (intro conjI impI)
  assume a: "server m = Some srv \<and> stop m = Open"
  then show "Stop m w =
        (Return (fst (cleanup m (grpc_Stop srv w))),
         m\<lparr>server := None, stop := Closed\<rparr>,
         snd (cleanup m (grpc_Stop srv w)))"
    by (simp add: Stop_started)
next
  assume "fst (cleanup m (grpc_Stop srv w)) = None"
  then show "socket m \<notin> files (snd (cleanup m (grpc_Stop srv w)))"
    using cleanup_cases [of m "grpc_Stop srv w" None "snd (cleanup m (grpc_Stop srv w))"]
    by (metis prod.collapse)
next
  show "health (fst (snd (Stop m w))) = health m"
    by (rule Stop_health)
next
  show "health (plugin (run ops st)) = health (plugin st)"
    by (rule run_health)
next
  assume "stop m1 = Closed"
  then show "select_ready m1 senders = RecvStop # map RecvHealth senders"
    by (simp add: select_ready_def)
next
  show "lw_loop m1 (RecvStop # evs) hp s = (Return None, hp, s)"
    by simp
qed

text \<open>
  C5 as stated does not hold. A plugin from the builder is started and stopped: the health
  channel is still open, a sender blocked on it is among the cases the select can take,
  and the loop of a running ListAndWatch that takes it before the stop case consumes the
  signal: its last message has the second device Unhealthy.
\<close>

theorem Stop_leaves_health_channel_open:
  "health (fst (snd (Stop
       (fst (snd (Start (fst (NewRdmaSriovDevPlugin fake_sriovnet \<lparr>PfNetdevices = [''ens1f0'']\<rparr> [] []))
          fake_host)))
       (snd (snd (Start (fst (NewRdmaSriovDevPlugin fake_sriovnet \<lparr>PfNetdevices = [''ens1f0'']\<rparr> [] []))
          fake_host)))))) = Open \<and>
   RecvHealth 1 \<in> set (select_ready
     (fst (snd (Stop
       (fst (snd (Start (fst (NewRdmaSriovDevPlugin fake_sriovnet \<lparr>PfNetdevices = [''ens1f0'']\<rparr> [] []))
          fake_host)))
       (snd (snd (Start (fst (NewRdmaSriovDevPlugin fake_sriovnet \<lparr>PfNetdevices = [''ens1f0'']\<rparr> [] []))
          fake_host)))))) [1]) \<and>
   map (map_option Health) (Devices (fst (last (sent (snd (snd (lw_loop
     (fst (snd (Stop
       (fst (snd (Start (fst (NewRdmaSriovDevPlugin fake_sriovnet \<lparr>PfNetdevices = [''ens1f0'']\<rparr> [] []))
          fake_host)))
       (snd (snd (Start (fst (NewRdmaSriovDevPlugin fake_sriovnet \<lparr>PfNetdevices = [''ens1f0'']\<rparr> [] []))
          fake_host))))))
     [RecvHealth 1, RecvStop]
     (fst (snd (NewRdmaSriovDevPlugin fake_sriovnet \<lparr>PfNetdevices = [''ens1f0'']\<rparr> [] [])))
     fake_stream))))))) = [Some Healthy, Some Unhealthy]"
  by code_simp

text \<open>
  Stop on the started plugin of the fake host: it returns nil, the stop channel is closed
  and the socket file is gone; with one sender blocked on the health channel, the select
  can take the stop case or that sender's signal.
\<close>

theorem Stop_closes_stop_channel_witness:
  "fst (Stop
     (fst (snd (Start (fst (NewRdmaSriovDevPlugin fake_sriovnet \<lparr>PfNetdevices = [''ens1f0'']\<rparr> [] []))
        fake_host)))
     (snd (snd (Start (fst (NewRdmaSriovDevPlugin fake_sriovnet \<lparr>PfNetdevices = [''ens1f0'']\<rparr> [] []))
        fake_host)))) = Return None \<and>
   stop (fst (snd (Stop
     (fst (snd (Start (fst (NewRdmaSriovDevPlugin fake_sriovnet \<lparr>PfNetdevices = [''ens1f0'']\<rparr> [] []))
        fake_host)))
     (snd (snd (Start (fst (NewRdmaSriovDevPlugin fake_sriovnet \<lparr>PfNetdevices = [''ens1f0'']\<rparr> [] []))
        fake_host)))))) = Closed \<and>
   DevicePluginPath @ RdmaSriovDpSocket \<notin> files (snd (snd (Stop
     (fst (snd (Start (fst (NewRdmaSriovDevPlugin fake_sriovnet \<lparr>PfNetdevices = [''ens1f0'']\<rparr> [] []))
        fake_host)))
     (snd (snd (Start (fst (NewRdmaSriovDevPlugin fake_sriovnet \<lparr>PfNetdevices = [''ens1f0'']\<rparr> [] []))
        fake_host)))))) \<and>
   select_ready (fst (snd (Stop
     (fst (snd (Start (fst (NewRdmaSriovDevPlugin fake_sriovnet \<lparr>PfNetdevices = [''ens1f0'']\<rparr> [] []))
        fake_host)))
     (snd (snd (Start (fst (NewRdmaSriovDevPlugin fake_sriovnet \<lparr>PfNetdevices = [''ens1f0'']\<rparr> [] []))
        fake_host)))))) [1] = [RecvStop, RecvHealth 1]"
proof -
  let ?new = "fst (NewRdmaSriovDevPlugin fake_sriovnet \<lparr>PfNetdevices = [''ens1f0'']\<rparr> [] [])"
  let ?m = "fst (snd (Start ?new fake_host))"
  let ?w = "snd (snd (Start ?new fake_host))"
  let ?srv = "Server [DevicePluginPath @ RdmaSriovDpSocket]"
  have h: "server ?m = Some ?srv \<and> stop ?m = Open"
    by code_simp
  have c: "fst (cleanup ?m (grpc_Stop ?srv ?w)) = None"
    by code_simp
  have s: "socket ?m = DevicePluginPath @ RdmaSriovDpSocket"
    by code_simp
  note inst = Stop_closes_stop_channel [of ?m ?srv ?w _ _ "fst (snd (Stop ?m ?w))" "[1]"]
  from inst [THEN conjunct1, THEN mp, OF h] c s
  have stopped: "fst (Stop ?m ?w) = Return None \<and> stop (fst (snd (Stop ?m ?w))) = Closed \<and>
      DevicePluginPath @ RdmaSriovDpSocket \<notin> files (snd (snd (Stop ?m ?w)))"
    by simp
  then have "stop (fst (snd (Stop ?m ?w))) = Closed"
    by simp
  with inst have "select_ready (fst (snd (Stop ?m ?w))) [1] = RecvStop # map RecvHealth [1]"
    by blast
  with stopped show ?thesis
    by simp
qed

text \<open>
  Start, Stop and Stop again on the fake host: both calls of Stop return nil and the socket
  file is gone after the first. Stop on the plugin as the builder returns it changes
  nothing.
\<close>

theorem Stop_twice_witness:
  "fst (Stop
     (fst (snd (Start (fst (NewRdmaSriovDevPlugin fake_sriovnet \<lparr>PfNetdevices = [''ens1f0'']\<rparr> [] []))
        fake_host)))
     (snd (snd (Start (fst (NewRdmaSriovDevPlugin fake_sriovnet \<lparr>PfNetdevices = [''ens1f0'']\<rparr> [] []))
        fake_host)))) = Return None \<and>
   fst (Stop
     (fst (snd (Stop
       (fst (snd (Start (fst (NewRdmaSriovDevPlugin fake_sriovnet \<lparr>PfNetdevices = [''ens1f0'']\<rparr> [] []))
          fake_host)))
       (snd (snd (Start (fst (NewRdmaSriovDevPlugin fake_sriovnet \<lparr>PfNetdevices = [''ens1f0'']\<rparr> [] []))
          fake_host))))))
     (snd (snd (Stop
       (fst (snd (Start (fst (NewRdmaSriovDevPlugin fake_sriovnet \<lparr>PfNetdevices = [''ens1f0'']\<rparr> [] []))
          fake_host)))
       (snd (snd (Start (fst (NewRdmaSriovDevPlugin fake_sriovnet \<lparr>PfNetdevices = [''ens1f0'']\<rparr> [] []))
          fake_host))))))) = Return None \<and>
   DevicePluginPath @ RdmaSriovDpSocket \<notin> files (snd (snd (Stop
     (fst (snd (Start (fst (NewRdmaSriovDevPlugin fake_sriovnet \<lparr>PfNetdevices = [''ens1f0'']\<rparr> [] []))
        fake_host)))
     (snd (snd (Start (fst (NewRdmaSriovDevPlugin fake_sriovnet \<lparr>PfNetdevices = [''ens1f0'']\<rparr> [] []))
        fake_host)))))) \<and>
   Stop (fst (NewRdmaSriovDevPlugin fake_sriovnet \<lparr>PfNetdevices = [''ens1f0'']\<rparr> [] [])) fake_host =
     (Return None, fst (NewRdmaSriovDevPlugin fake_sriovnet \<lparr>PfNetdevices = [''ens1f0'']\<rparr> [] []),
      fake_host)"
proof -
  let ?new = "fst (NewRdmaSriovDevPlugin fake_sriovnet \<lparr>PfNetdevices = [''ens1f0'']\<rparr> [] [])"
  let ?m = "fst (snd (Start ?new fake_host))"
  let ?w = "snd (snd (Start ?new fake_host))"
  let ?mA = "fst (snd (Stop ?m ?w))"
  let ?wA = "snd (snd (Stop ?m ?w))"
  have srv: "server ?m \<noteq> None"
    by code_simp
  have r: "fst (Stop ?m ?w) = Return None"
    by code_simp
  have s: "socket ?m = DevicePluginPath @ RdmaSriovDpSocket" "socket ?new = DevicePluginPath @ RdmaSriovDpSocket"
    by code_simp+
  from r have st: "Stop ?m ?w = (Return None, ?mA, ?wA)"
    by (metis prod.collapse)
  from Stop_twice [THEN conjunct1, rule_format, of ?m ?w None ?mA ?wA] srv st
  have first: "Stop ?mA ?wA = (Return None, ?mA, ?wA) \<and> stop ?mA = Closed \<and> socket ?m \<notin> files ?wA"
    by simp
  have "fst (Start ?new fake_host) = None"
    by code_simp
  then have started: "Start ?new fake_host = (None, ?m, ?w)"
    by (metis prod.collapse)
  have op: "stop ?new = Open"
    by code_simp
  from Stop_twice [THEN conjunct2, THEN conjunct1, rule_format, of ?new fake_host ?m ?w] started op
  have "\<exists>m1 w1. Stop ?m ?w = (Return None, m1, w1) \<and> socket ?new \<notin> files w1 \<and>
      Stop m1 w1 = (Return None, m1, w1)"
    by simp
  then have gone: "socket ?new \<notin> files ?wA"
    by auto
  have "server ?new = None"
    by code_simp
  with Stop_twice [THEN conjunct2, THEN conjunct2, of ?new fake_host]
  have never: "Stop ?new fake_host = (Return None, ?new, fake_host)"
    by simp
  show ?thesis
    using r first gone never s by simp
qed

text \<open>
  A node agent that refuses the registration: Serve returns its error, the server is
  forgotten, nothing listens on the socket and the socket file is removed. A host on which
  the socket cannot be bound: Serve returns the error of Start.
\<close>

theorem Serve_compensates_witness:
  "fst (Serve (fst (NewRdmaSriovDevPlugin fake_sriovnet \<lparr>PfNetdevices = [''ens1f0'']\<rparr> [] []))
      (fake_host\<lparr>register_fault := \<lambda>reqt. Some (Err ''refused'')\<rparr>)) =
     Return (Some (Err ''refused'')) \<and>
   server (fst (snd (Serve (fst (NewRdmaSriovDevPlugin fake_sriovnet \<lparr>PfNetdevices = [''ens1f0'']\<rparr> [] []))
      (fake_host\<lparr>register_fault := \<lambda>reqt. Some (Err ''refused'')\<rparr>)))) = None \<and>
   DevicePluginPath @ RdmaSriovDpSocket \<notin>
     files (snd (snd (Serve (fst (NewRdmaSriovDevPlugin fake_sriovnet \<lparr>PfNetdevices = [''ens1f0'']\<rparr> [] []))
      (fake_host\<lparr>register_fault := \<lambda>reqt. Some (Err ''refused'')\<rparr>)))) \<and>
   DevicePluginPath @ RdmaSriovDpSocket \<notin>
     listening (snd (snd (Serve (fst (NewRdmaSriovDevPlugin fake_sriovnet \<lparr>PfNetdevices = [''ens1f0'']\<rparr> [] []))
      (fake_host\<lparr>register_fault := \<lambda>reqt. Some (Err ''refused'')\<rparr>)))) \<and>
   fst (Serve (fst (NewRdmaSriovDevPlugin fake_sriovnet \<lparr>PfNetdevices = [''ens1f0'']\<rparr> [] []))
      (fake_host\<lparr>listen_fault := \<lambda>address. Some (Err ''too many open files'')\<rparr>)) =
     Return (Some (Err ''too many open files''))"
proof -
  let ?m = "fst (NewRdmaSriovDevPlugin fake_sriovnet \<lparr>PfNetdevices = [''ens1f0'']\<rparr> [] [])"
  let ?w = "fake_host\<lparr>register_fault := \<lambda>reqt. Some (Err ''refused'')\<rparr>"
  let ?mA = "fst (snd (Start ?m ?w))"
  let ?wA = "snd (snd (Start ?m ?w))"
  let ?wB = "snd (Register ?mA KubeletSocket (resourceName ?mA) ?wA)"
  let ?v = "fake_host\<lparr>listen_fault := \<lambda>address. Some (Err ''too many open files'')\<rparr>"
  have "fst (Start ?m ?w) = None"
    by code_simp
  then have st: "Start ?m ?w = (None, ?mA, ?wA)"
    by (metis prod.collapse)
  have "fst (Register ?mA KubeletSocket (resourceName ?mA) ?wA) = Some (Err ''refused'')"
    by code_simp
  then have reg: "Register ?mA KubeletSocket (resourceName ?mA) ?wA = (Some (Err ''refused''), ?wB)"
    by (metis prod.collapse)
  have op: "stop ?m = Open"
    by code_simp
  have s: "socket ?m = DevicePluginPath @ RdmaSriovDpSocket"
    by code_simp
  have "fst (Start ?m ?v) = Some (Err ''too many open files'')"
    by code_simp
  then have sf: "Start ?m ?v = (Some (Err ''too many open files''), fst (snd (Start ?m ?v)), snd (snd (Start ?m ?v)))"
    by (metis prod.collapse)
  from Serve_compensates [THEN conjunct2, THEN conjunct2, rule_format, of ?m ?w ?mA ?wA "Err ''refused''" ?wB]
    st reg op
  obtain m2 w3 where serve: "Serve ?m ?w = (Return (Some (Err ''refused'')), m2, w3)"
    and "server m2 = None" and "socket ?m \<notin> files w3"
    by blast
  moreover have "Start ?m ?w = (None, ?mA, ?wA) \<and>
      Register ?mA KubeletSocket (resourceName ?mA) ?wA = (Some (Err ''refused''), ?wB)"
    using st reg by (rule conjI)
  from Serve_compensates [THEN conjunct2, THEN conjunct1, THEN spec, THEN spec, THEN spec, THEN spec,
      THEN mp, OF this]
  have "socket ?m \<notin> listening (snd (snd (Serve ?m ?w)))"
    by blast
  moreover from Serve_compensates [THEN conjunct1, rule_format, OF sf]
  have "fst (Serve ?m ?v) = Return (Some (Err ''too many open files''))"
    by simp
  ultimately show ?thesis
    using s by simp
qed

end
